theory Spec2Isabelle
  imports Complex_Main
begin

section \<open>JavaScript numbers\<close>

text \<open>
  The slider reads \<open>value\<close>, \<open>min\<close> and \<open>max\<close> of its control and combines them with
  the JavaScript operators \<open>-\<close>, \<open>/\<close> and \<open>===\<close>. A JavaScript number is an IEEE 754
  binary64 value: a finite number, one of the two zeros, one of the two infinities, or
  NaN. \<open>Fin q\<close> is the finite number whose exact value is the rational \<open>q\<close>
  (\<open>Fin 0\<close> is the positive zero), \<open>NegZero\<close> is the negative zero.
\<close>

datatype jsnum = Fin rat | NegZero | PosInf | NegInf | NaN

definition pow2 :: "int \<Rightarrow> rat" where
  "pow2 e = (if 0 \<le> e then 2 ^ nat e else 1 / 2 ^ nat (- e))"

text \<open>The number of binary digits of a positive integer.\<close>

fun bitLength :: "int \<Rightarrow> int" where
  "bitLength n = (if n \<le> 0 then 0 else 1 + bitLength (n div 2))"

declare bitLength.simps [simp del]

text \<open>\<open>ilog2 q\<close> is the binary exponent of a positive rational: \<open>2 ^ ilog2 q \<le> q < 2 ^ (ilog2 q + 1)\<close>.\<close>

definition ilog2 :: "rat \<Rightarrow> int" where
  "ilog2 q = (if 1 \<le> q then bitLength \<lfloor>q\<rfloor> - 1 else - bitLength (\<lceil>1 / q\<rceil> - 1))"

definition roundHalfEven :: "rat \<Rightarrow> int" where
  "roundHalfEven t =
     (if t - of_int \<lfloor>t\<rfloor> < 1 / 2 then \<lfloor>t\<rfloor>
      else if 1 / 2 < t - of_int \<lfloor>t\<rfloor> then \<lfloor>t\<rfloor> + 1
      else if even \<lfloor>t\<rfloor> then \<lfloor>t\<rfloor> else \<lfloor>t\<rfloor> + 1)"

text \<open>
  \<open>roundAt e a\<close> rounds the magnitude \<open>a\<close> to the nearest multiple of \<open>2 ^ e\<close>, ties to
  the even multiple; \<open>pack\<close> attaches the sign and turns a magnitude of \<open>2 ^ 1024\<close> or
  more into an infinity. \<open>ulpExp q\<close> is the exponent of the last of the 53 significant
  bits of \<open>q\<close>, never below \<open>- 1074\<close>, and \<open>rnd\<close> is round-to-nearest of binary64.
\<close>

definition roundAt :: "int \<Rightarrow> rat \<Rightarrow> rat" where
  "roundAt e a = of_int (roundHalfEven (a / pow2 e)) * pow2 e"

definition pack :: "bool \<Rightarrow> rat \<Rightarrow> jsnum" where
  "pack neg v =
     (if pow2 1024 \<le> v then (if neg then NegInf else PosInf)
      else if v = 0 then (if neg then NegZero else Fin 0)
      else Fin (if neg then - v else v))"

definition ulpExp :: "rat \<Rightarrow> int" where
  "ulpExp q = max (- 1074) (ilog2 \<bar>q\<bar> - 52)"

definition rnd :: "rat \<Rightarrow> jsnum" where
  "rnd q = pack (q < 0) (roundAt (ulpExp q) \<bar>q\<bar>)"

text \<open>A rational is a binary64 value when rounding leaves it as it is.\<close>

definition isDouble :: "jsnum \<Rightarrow> bool" where
  "isDouble x = (case x of Fin q \<Rightarrow> rnd q = Fin q | _ \<Rightarrow> True)"

fun isInf :: "jsnum \<Rightarrow> bool" where
  "isInf PosInf = True"
| "isInf NegInf = True"
| "isInf _ = False"

fun isFinite :: "jsnum \<Rightarrow> bool" where
  "isFinite (Fin q) = True"
| "isFinite NegZero = True"
| "isFinite _ = False"

fun signBit :: "jsnum \<Rightarrow> bool" where
  "signBit (Fin q) = (q < 0)"
| "signBit NegZero = True"
| "signBit NegInf = True"
| "signBit _ = False"

fun exact :: "jsnum \<Rightarrow> rat" where
  "exact (Fin q) = q"
| "exact _ = 0"

definition signedInf :: "bool \<Rightarrow> jsnum" where
  "signedInf neg = (if neg then NegInf else PosInf)"

definition signedZero :: "bool \<Rightarrow> jsnum" where
  "signedZero neg = (if neg then NegZero else Fin 0)"

fun jsNeg :: "jsnum \<Rightarrow> jsnum" where
  "jsNeg (Fin q) = (if q = 0 then NegZero else Fin (- q))"
| "jsNeg NegZero = Fin 0"
| "jsNeg PosInf = NegInf"
| "jsNeg NegInf = PosInf"
| "jsNeg NaN = NaN"

text \<open>
  The operator \<open>-\<close> on numbers (ECMAScript Number::subtract, that is \<open>x + (-y)\<close>): NaN is
  contagious, equal infinities cancel to NaN, an exact difference of zero is the positive
  zero unless it is \<open>-0 - +0\<close>, everything else is the rounded exact difference.
\<close>

definition jsSub :: "jsnum \<Rightarrow> jsnum \<Rightarrow> jsnum" where
  "jsSub x y =
     (if x = NaN \<or> y = NaN then NaN
      else if isInf x then (if x = y then NaN else x)
      else if isInf y then jsNeg y
      else if exact x = exact y then (if x = NegZero \<and> y = Fin 0 then NegZero else Fin 0)
      else rnd (exact x - exact y))"

text \<open>
  The operator \<open>/\<close> on numbers (ECMAScript Number::divide): the sign of the result is the
  exclusive or of the operands' signs; infinity by infinity and zero by zero are NaN; a
  non-zero number by zero is an infinity.
\<close>

definition jsDiv :: "jsnum \<Rightarrow> jsnum \<Rightarrow> jsnum" where
  "jsDiv x y =
     (if x = NaN \<or> y = NaN then NaN
      else if isInf x then (if isInf y then NaN else signedInf (signBit x \<noteq> signBit y))
      else if isInf y then signedZero (signBit x \<noteq> signBit y)
      else if exact y = 0 then (if exact x = 0 then NaN else signedInf (signBit x \<noteq> signBit y))
      else if exact x = 0 then signedZero (signBit x \<noteq> signBit y)
      else rnd (exact x / exact y))"

definition isZero :: "jsnum \<Rightarrow> bool" where
  "isZero x = (x = Fin 0 \<or> x = NegZero)"

text \<open>The operator \<open>===\<close> on numbers: NaN equals nothing, the two zeros are equal.\<close>

definition strictEq :: "jsnum \<Rightarrow> jsnum \<Rightarrow> bool" where
  "strictEq x y = (x \<noteq> NaN \<and> y \<noteq> NaN \<and> (x = y \<or> (isZero x \<and> isZero y)))"

text \<open>The operators \<open><\<close> and \<open>>\<close> on numbers: false whenever an operand is NaN.\<close>

fun jsLess :: "jsnum \<Rightarrow> jsnum \<Rightarrow> bool" where
  "jsLess NaN _ = False"
| "jsLess _ NaN = False"
| "jsLess PosInf _ = False"
| "jsLess _ PosInf = True"
| "jsLess _ NegInf = False"
| "jsLess NegInf _ = True"
| "jsLess x y = (exact x < exact y)"

text \<open>
  The test \<open>if (value)\<close> of an optional numeric argument: \<open>None\<close> is the omitted argument
  (\<open>undefined\<close>); \<open>undefined\<close>, both zeros and NaN are falsy, every other number is truthy.
\<close>

fun truthy :: "jsnum option \<Rightarrow> bool" where
  "truthy None = False"
| "truthy (Some x) = (\<not> isZero x \<and> x \<noteq> NaN)"


section \<open>The document\<close>

text \<open>
  The widget works on nodes of the host document. A node is addressed by a reference;
  the document maps every reference to the node's state and hands out fresh references
  for created elements. A node carries what the slider touches: its class list, its
  place in the tree, its listeners, the attributes \<open>value\<close>, \<open>min\<close>, \<open>max\<close> and
  \<open>disabled\<close> of a range control (as the numbers the operator \<open>-\<close> reads from them),
  and the properties \<open>flex\<close> and \<open>webkitFlex\<close> of its style (\<open>None\<close>: never assigned).
  Assignments to attributes and style properties are modelled as the stores the source
  performs; what the host does with an assigned value afterwards is not part of this
  program.
\<close>

type_synonym ref = nat

datatype handler = OnInput | OnChange | OnMouseUp

record node =
  tagName :: string
  classList :: "string list"
  parentElement :: "ref option"
  childNodes :: "ref list"
  listeners :: "(string \<times> handler) list"
  value_attr :: jsnum
  min_attr :: jsnum
  max_attr :: jsnum
  disabled :: bool
  flex :: "jsnum option"
  webkitFlex :: "jsnum option"

record document =
  nodes :: "ref \<Rightarrow> node"
  fresh :: ref
  activeElement :: "ref option"

text \<open>
  The slider object: \<open>element_\<close>, \<open>isIE_\<close>, \<open>backgroundLower_\<close> and \<open>backgroundUpper_\<close>
  of the source (a constant's name cannot end in an underscore here). \<open>None\<close> is an
  absent (null or undefined) reference.
\<close>

record MaterialSlider =
  element :: "ref option"
  isIE :: bool
  backgroundLower :: "ref option"
  backgroundUpper :: "ref option"

record state =
  widget :: MaterialSlider
  dom :: document

datatype error = TypeError | NotFoundError

text \<open>
  A method either returns, with the state it leaves, or throws, with the state at the
  moment of the throw: \<open>Inl (e, s)\<close> is the throw.
\<close>

type_synonym result = "(error \<times> state) + state"

definition andThen :: "result \<Rightarrow> (state \<Rightarrow> result) \<Rightarrow> result" where
  "andThen r f = (case r of Inl x \<Rightarrow> Inl x | Inr s \<Rightarrow> f s)"

definition getNode :: "state \<Rightarrow> ref \<Rightarrow> node" where
  "getNode s r = nodes (dom s) r"

definition updNode :: "ref \<Rightarrow> (node \<Rightarrow> node) \<Rightarrow> state \<Rightarrow> state" where
  "updNode r f s = s\<lparr>dom := (dom s)\<lparr>nodes := (nodes (dom s))(r := f (nodes (dom s) r))\<rparr>\<rparr>"

text \<open>\<open>classList.add\<close> and \<open>classList.remove\<close>: the class list is an ordered set of tokens.\<close>

definition classList_add :: "ref \<Rightarrow> string \<Rightarrow> state \<Rightarrow> state" where
  "classList_add r c s =
     updNode r (\<lambda>n. n\<lparr>classList := (if c \<in> set (classList n) then classList n else classList n @ [c])\<rparr>) s"

definition classList_remove :: "ref \<Rightarrow> string \<Rightarrow> state \<Rightarrow> state" where
  "classList_remove r c s = updNode r (\<lambda>n. n\<lparr>classList := removeAll c (classList n)\<rparr>) s"

definition blankNode :: "string \<Rightarrow> node" where
  "blankNode t = \<lparr>tagName = t, classList = [], parentElement = None, childNodes = [],
     listeners = [], value_attr = NaN, min_attr = NaN, max_attr = NaN, disabled = False,
     flex = None, webkitFlex = None\<rparr>"

text \<open>\<open>document.createElement\<close>: a new node without parent, children or classes.\<close>

definition createElement :: "string \<Rightarrow> state \<Rightarrow> ref \<times> state" where
  "createElement t s =
     (fresh (dom s),
      s\<lparr>dom := (dom s)\<lparr>nodes := (nodes (dom s))(fresh (dom s) := blankNode t),
                         fresh := Suc (fresh (dom s))\<rparr>\<rparr>)"

definition detach :: "ref \<Rightarrow> state \<Rightarrow> state" where
  "detach c s =
     (case parentElement (getNode s c) of
        None \<Rightarrow> s
      | Some p \<Rightarrow> updNode c (\<lambda>n. n\<lparr>parentElement := None\<rparr>)
                  (updNode p (\<lambda>n. n\<lparr>childNodes := removeAll c (childNodes n)\<rparr>) s))"

fun insertAt :: "ref \<Rightarrow> ref \<Rightarrow> ref list \<Rightarrow> ref list" where
  "insertAt new before [] = []"
| "insertAt new before (x # xs) =
     (if x = before then new # x # xs else x # insertAt new before xs)"

text \<open>
  \<open>parent.insertBefore(new, before)\<close>: NotFoundError when \<open>before\<close> is not a child of
  \<open>parent\<close>; otherwise \<open>new\<close> leaves its old parent and is placed before \<open>before\<close>.
\<close>

definition insertBefore :: "ref \<Rightarrow> ref \<Rightarrow> ref \<Rightarrow> state \<Rightarrow> result" where
  "insertBefore p new before s =
     (if before \<notin> set (childNodes (getNode s p)) then Inl (NotFoundError, s)
      else Inr (updNode new (\<lambda>n. n\<lparr>parentElement := Some p\<rparr>)
                 (updNode p (\<lambda>n. n\<lparr>childNodes := insertAt new before (childNodes n)\<rparr>)
                   (detach new s))))"

text \<open>\<open>parent.removeChild(child)\<close>: NotFoundError when \<open>child\<close> is not a child of \<open>parent\<close>.\<close>

definition removeChild :: "ref \<Rightarrow> ref \<Rightarrow> state \<Rightarrow> result" where
  "removeChild p c s =
     (if c \<notin> set (childNodes (getNode s p)) then Inl (NotFoundError, s)
      else Inr (updNode c (\<lambda>n. n\<lparr>parentElement := None\<rparr>)
                 (updNode p (\<lambda>n. n\<lparr>childNodes := removeAll c (childNodes n)\<rparr>) s)))"

text \<open>\<open>parent.appendChild(child)\<close>: \<open>child\<close> leaves its old parent and becomes the last child.\<close>

definition appendChild :: "ref \<Rightarrow> ref \<Rightarrow> state \<Rightarrow> state" where
  "appendChild p c s =
     updNode c (\<lambda>n. n\<lparr>parentElement := Some p\<rparr>)
       (updNode p (\<lambda>n. n\<lparr>childNodes := childNodes n @ [c]\<rparr>) (detach c s))"

definition addEventListener :: "ref \<Rightarrow> string \<Rightarrow> handler \<Rightarrow> state \<Rightarrow> state" where
  "addEventListener r t h s = updNode r (\<lambda>n. n\<lparr>listeners := listeners n @ [(t, h)]\<rparr>) s"

text \<open>\<open>target.blur()\<close>: the target loses the input focus if it has it.\<close>

definition blur :: "ref \<Rightarrow> state \<Rightarrow> state" where
  "blur r s = (if activeElement (dom s) = Some r then s\<lparr>dom := (dom s)\<lparr>activeElement := None\<rparr>\<rparr> else s)"


section \<open>The slider\<close>

definition IE_CONTAINER :: string where "IE_CONTAINER = ''mdl-slider__ie-container''"
definition SLIDER_CONTAINER :: string where "SLIDER_CONTAINER = ''mdl-slider__container''"
definition BACKGROUND_FLEX :: string where "BACKGROUND_FLEX = ''mdl-slider__background-flex''"
definition BACKGROUND_LOWER :: string where "BACKGROUND_LOWER = ''mdl-slider__background-lower''"
definition BACKGROUND_UPPER :: string where "BACKGROUND_UPPER = ''mdl-slider__background-upper''"
definition IS_LOWEST_VALUE :: string where "IS_LOWEST_VALUE = ''is-lowest-value''"
definition IS_UPGRADED :: string where "IS_UPGRADED = ''is-upgraded''"

text \<open>
  The fraction that \<open>updateValueStyles_\<close> computes from the control:
  \<open>(value - min) / (max - min)\<close>.
\<close>

definition fractionOf :: "node \<Rightarrow> jsnum" where
  "fractionOf n = jsDiv (jsSub (value_attr n) (min_attr n)) (jsSub (max_attr n) (min_attr n))"

definition setLowestValue :: "ref \<Rightarrow> jsnum \<Rightarrow> state \<Rightarrow> state" where
  "setLowestValue e fraction s =
     (if strictEq fraction (Fin 0) then classList_add e IS_LOWEST_VALUE s
      else classList_remove e IS_LOWEST_VALUE s)"

definition setFlex :: "ref \<Rightarrow> jsnum \<Rightarrow> state \<Rightarrow> state" where
  "setFlex r x s = updNode r (\<lambda>n. n\<lparr>webkitFlex := Some x\<rparr>) (updNode r (\<lambda>n. n\<lparr>flex := Some x\<rparr>) s)"

text \<open>
  \<open>updateValueStyles_\<close>. Reading a property of an absent \<open>element_\<close>,
  \<open>backgroundLower_\<close> or \<open>backgroundUpper_\<close> throws a TypeError, after the writes made so far.
\<close>

definition updateValueStyles :: "state \<Rightarrow> result" where
  "updateValueStyles s =
     (case element (widget s) of
        None \<Rightarrow> Inl (TypeError, s)
      | Some e \<Rightarrow>
          (let fraction = fractionOf (getNode s e);
               s1 = setLowestValue e fraction s
           in if \<not> isIE (widget s1) then
                (case backgroundLower (widget s1) of
                   None \<Rightarrow> Inl (TypeError, s1)
                 | Some lo \<Rightarrow>
                     (let s2 = setFlex lo fraction s1
                      in case backgroundUpper (widget s2) of
                           None \<Rightarrow> Inl (TypeError, s2)
                         | Some up \<Rightarrow> Inr (setFlex up (jsSub (Fin 1) fraction) s2)))
              else Inr s1))"

record event =
  target :: ref

definition onInput :: "event \<Rightarrow> state \<Rightarrow> result" where
  "onInput ev s = updateValueStyles s"

definition onChange :: "event \<Rightarrow> state \<Rightarrow> result" where
  "onChange ev s = updateValueStyles s"

definition onMouseUp :: "event \<Rightarrow> state \<Rightarrow> result" where
  "onMouseUp ev s = Inr (blur (target ev) s)"

definition disable :: "state \<Rightarrow> result" where
  "disable s =
     (case element (widget s) of
        None \<Rightarrow> Inl (TypeError, s)
      | Some e \<Rightarrow> Inr (updNode e (\<lambda>n. n\<lparr>disabled := True\<rparr>) s))"

definition enable :: "state \<Rightarrow> result" where
  "enable s =
     (case element (widget s) of
        None \<Rightarrow> Inl (TypeError, s)
      | Some e \<Rightarrow> Inr (updNode e (\<lambda>n. n\<lparr>disabled := False\<rparr>) s))"

text \<open>
  An optional numeric argument read as a number: \<open>undefined\<close> converts to NaN.
\<close>

fun toNumber :: "jsnum option \<Rightarrow> jsnum" where
  "toNumber None = NaN"
| "toNumber (Some x) = x"

text \<open>\<open>change(value)\<close>: the argument is assigned only when it is truthy.\<close>

definition change :: "jsnum option \<Rightarrow> state \<Rightarrow> result" where
  "change v s =
     (if truthy v then
        (case element (widget s) of
           None \<Rightarrow> Inl (TypeError, s)
         | Some e \<Rightarrow> updateValueStyles (updNode e (\<lambda>n. n\<lparr>value_attr := toNumber v\<rparr>) s))
      else updateValueStyles s)"

text \<open>
  The two decoration layouts of \<open>init\<close>. \<open>this.element_.parentElement\<close> is read twice,
  before \<open>insertBefore\<close> and before \<open>removeChild\<close>; an absent parent throws a TypeError.
\<close>

definition reparent :: "ref \<Rightarrow> ref \<Rightarrow> state \<Rightarrow> result" where
  "reparent container e s =
     (case parentElement (getNode s e) of
        None \<Rightarrow> Inl (TypeError, s)
      | Some p \<Rightarrow>
          andThen (insertBefore p container e s) (\<lambda>s1.
            case parentElement (getNode s1 e) of
              None \<Rightarrow> Inl (TypeError, s1)
            | Some p1 \<Rightarrow>
                andThen (removeChild p1 e s1) (\<lambda>s2. Inr (appendChild container e s2))))"

definition initIE :: "ref \<Rightarrow> state \<Rightarrow> result" where
  "initIE e s =
     (case createElement ''div'' s of (containerIE, s1) \<Rightarrow>
        reparent containerIE e (classList_add containerIE IE_CONTAINER s1))"

definition initFlex :: "ref \<Rightarrow> state \<Rightarrow> result" where
  "initFlex e s =
     (case createElement ''div'' s of (container, s1) \<Rightarrow>
        andThen (reparent container e (classList_add container SLIDER_CONTAINER s1)) (\<lambda>s2.
          case createElement ''div'' s2 of (backgroundFlex, s3) \<Rightarrow>
            (let s4 = appendChild container backgroundFlex
                        (classList_add backgroundFlex BACKGROUND_FLEX s3)
             in case createElement ''div'' s4 of (lower, s5) \<Rightarrow>
               (let s6 = appendChild backgroundFlex lower
                           (classList_add lower BACKGROUND_LOWER
                             (s5\<lparr>widget := (widget s5)\<lparr>backgroundLower := Some lower\<rparr>\<rparr>))
                in case createElement ''div'' s6 of (upper, s7) \<Rightarrow>
                  Inr (appendChild backgroundFlex upper
                        (classList_add upper BACKGROUND_UPPER
                          (s7\<lparr>widget := (widget s7)\<lparr>backgroundUpper := Some upper\<rparr>\<rparr>)))))))"

definition init :: "state \<Rightarrow> result" where
  "init s =
     (case element (widget s) of
        None \<Rightarrow> Inr s
      | Some e \<Rightarrow>
          andThen (if isIE (widget s) then initIE e s else initFlex e s) (\<lambda>s1.
            andThen (updateValueStyles
                      (addEventListener e ''mouseup'' OnMouseUp
                        (addEventListener e ''change'' OnChange
                          (addEventListener e ''input'' OnInput s1)))) (\<lambda>s2.
              Inr (classList_add e IS_UPGRADED s2))))"

text \<open>
  The constructor \<open>MaterialSlider(element)\<close>: \<open>msPointerEnabled\<close> is the truth value of
  \<open>window.navigator.msPointerEnabled\<close>.
\<close>

definition newMaterialSlider :: "ref option \<Rightarrow> bool \<Rightarrow> document \<Rightarrow> result" where
  "newMaterialSlider el msPointerEnabled d =
     init \<lparr>widget = \<lparr>element = el, isIE = msPointerEnabled,
                      backgroundLower = None, backgroundUpper = None\<rparr>,
           dom = d\<rparr>"

text \<open>The state a method leaves, whether it returns or throws.\<close>

definition finalState :: "result \<Rightarrow> state" where
  "finalState r = (case r of Inl (err, s) \<Rightarrow> s | Inr s \<Rightarrow> s)"

text \<open>
  States for examples. \<open>page\<close> is a document before the upgrade: node 0 is the parent
  of node 1, a range control with the given \<open>value\<close>, \<open>min\<close> and \<open>max\<close>.
  \<open>slider\<close> is a widget on such a control in the layout with the two fill regions
  (nodes 4 and 5), \<open>sliderIE\<close> one in the alternate layout, \<open>noSlider\<close> a widget
  constructed without a control.
\<close>

definition page :: "jsnum \<Rightarrow> jsnum \<Rightarrow> jsnum \<Rightarrow> document" where
  "page v lo hi =
     \<lparr>nodes = (\<lambda>r. blankNode ''div'')
        (0 := (blankNode ''div'')\<lparr>childNodes := [1]\<rparr>,
         1 := (blankNode ''input'')\<lparr>parentElement := Some 0, value_attr := v,
                                    min_attr := lo, max_attr := hi\<rparr>),
      fresh = 2, activeElement = None\<rparr>"

definition control :: "jsnum \<Rightarrow> jsnum \<Rightarrow> jsnum \<Rightarrow> node" where
  "control v lo hi =
     (blankNode ''input'')\<lparr>classList := [IS_UPGRADED], parentElement := Some 2,
       listeners := [(''input'', OnInput), (''change'', OnChange), (''mouseup'', OnMouseUp)],
       value_attr := v, min_attr := lo, max_attr := hi\<rparr>"

definition slider :: "jsnum \<Rightarrow> jsnum \<Rightarrow> jsnum \<Rightarrow> state" where
  "slider v lo hi =
     \<lparr>widget = \<lparr>element = Some 1, isIE = False,
                  backgroundLower = Some 4, backgroundUpper = Some 5\<rparr>,
      dom = \<lparr>nodes = (\<lambda>r. blankNode ''div'')
               (0 := (blankNode ''div'')\<lparr>childNodes := [2]\<rparr>,
                1 := control v lo hi,
                2 := (blankNode ''div'')\<lparr>classList := [SLIDER_CONTAINER],
                       parentElement := Some 0, childNodes := [1, 3]\<rparr>,
                3 := (blankNode ''div'')\<lparr>classList := [BACKGROUND_FLEX],
                       parentElement := Some 2, childNodes := [4, 5]\<rparr>,
                4 := (blankNode ''div'')\<lparr>classList := [BACKGROUND_LOWER],
                       parentElement := Some 3\<rparr>,
                5 := (blankNode ''div'')\<lparr>classList := [BACKGROUND_UPPER],
                       parentElement := Some 3\<rparr>),
             fresh = 6, activeElement = None\<rparr>\<rparr>"

definition sliderIE :: "jsnum \<Rightarrow> jsnum \<Rightarrow> jsnum \<Rightarrow> state" where
  "sliderIE v lo hi =
     \<lparr>widget = \<lparr>element = Some 1, isIE = True,
                  backgroundLower = None, backgroundUpper = None\<rparr>,
      dom = \<lparr>nodes = (\<lambda>r. blankNode ''div'')
               (0 := (blankNode ''div'')\<lparr>childNodes := [2]\<rparr>,
                1 := control v lo hi,
                2 := (blankNode ''div'')\<lparr>classList := [IE_CONTAINER],
                       parentElement := Some 0, childNodes := [1]\<rparr>),
             fresh = 3, activeElement = None\<rparr>\<rparr>"

definition noSlider :: state where
  "noSlider =
     \<lparr>widget = \<lparr>element = None, isIE = False,
                  backgroundLower = None, backgroundUpper = None\<rparr>,
      dom = page (Fin 5) (Fin 0) (Fin 10)\<rparr>"

section \<open>Properties\<close>

subsection \<open>Stores into the document\<close>

lemma updNode_widget [simp]: "widget (updNode r f s) = widget s"
  by (simp add: updNode_def)

lemma getNode_updNode [simp]:
  "getNode (updNode r f s) r' = (if r' = r then f (getNode s r) else getNode s r')"
  by (simp add: updNode_def getNode_def)

lemma updNode_fresh [simp]: "fresh (dom (updNode r f s)) = fresh (dom s)"
  by (simp add: updNode_def)

lemma updNode_activeElement [simp]:
  "activeElement (dom (updNode r f s)) = activeElement (dom s)"
  by (simp add: updNode_def)

lemma finalState_simps [simp]: "finalState (Inr s) = s" "finalState (Inl (e, s)) = s"
  by (simp_all add: finalState_def)

lemmas style_defs = setLowestValue_def setFlex_def classList_add_def classList_remove_def

text \<open>The state that \<open>updateValueStyles_\<close> leaves, in each of its outcomes.\<close>

lemma updateValueStyles_absent:
  "element (widget s) = None \<Longrightarrow> updateValueStyles s = Inl (TypeError, s)"
  by (simp add: updateValueStyles_def)

lemma updateValueStyles_IE:
  "element (widget s) = Some e \<Longrightarrow> isIE (widget s) \<Longrightarrow>
   updateValueStyles s = Inr (setLowestValue e (fractionOf (getNode s e)) s)"
  by (simp add: updateValueStyles_def style_defs Let_def)

lemma updateValueStyles_flex:
  "element (widget s) = Some e \<Longrightarrow> \<not> isIE (widget s) \<Longrightarrow>
   backgroundLower (widget s) = Some lo \<Longrightarrow> backgroundUpper (widget s) = Some up \<Longrightarrow>
   updateValueStyles s =
     Inr (setFlex up (jsSub (Fin 1) (fractionOf (getNode s e)))
           (setFlex lo (fractionOf (getNode s e))
             (setLowestValue e (fractionOf (getNode s e)) s)))"
  by (simp add: updateValueStyles_def style_defs Let_def)

lemma updateValueStyles_keeps_attrs:
  "value_attr (getNode (finalState (updateValueStyles s)) r) = value_attr (getNode s r) \<and>
   min_attr (getNode (finalState (updateValueStyles s)) r) = min_attr (getNode s r) \<and>
   max_attr (getNode (finalState (updateValueStyles s)) r) = max_attr (getNode s r) \<and>
   disabled (getNode (finalState (updateValueStyles s)) r) = disabled (getNode s r)"
  by (simp add: updateValueStyles_def style_defs Let_def split: option.splits)

lemma updateValueStyles_keeps_tree:
  "tagName (getNode (finalState (updateValueStyles s)) r) = tagName (getNode s r) \<and>
   parentElement (getNode (finalState (updateValueStyles s)) r) = parentElement (getNode s r) \<and>
   childNodes (getNode (finalState (updateValueStyles s)) r) = childNodes (getNode s r) \<and>
   listeners (getNode (finalState (updateValueStyles s)) r) = listeners (getNode s r)"
  by (simp add: updateValueStyles_def style_defs Let_def split: option.splits)

lemma updateValueStyles_keeps_widget:
  "widget (finalState (updateValueStyles s)) = widget s \<and>
   fresh (dom (finalState (updateValueStyles s))) = fresh (dom s) \<and>
   activeElement (dom (finalState (updateValueStyles s))) = activeElement (dom s)"
  by (simp add: updateValueStyles_def style_defs Let_def split: option.splits)

lemma updateValueStyles_classes:
  "(element (widget s) \<noteq> Some r \<longrightarrow>
      classList (getNode (finalState (updateValueStyles s)) r) = classList (getNode s r)) \<and>
   removeAll IS_LOWEST_VALUE (classList (getNode (finalState (updateValueStyles s)) r)) =
     removeAll IS_LOWEST_VALUE (classList (getNode s r))"
  by (simp add: updateValueStyles_def style_defs Let_def split: option.splits)

lemma updateValueStyles_styles:
  "isIE (widget s) \<or> (backgroundLower (widget s) \<noteq> Some r \<and> backgroundUpper (widget s) \<noteq> Some r) \<Longrightarrow>
   flex (getNode (finalState (updateValueStyles s)) r) = flex (getNode s r) \<and>
   webkitFlex (getNode (finalState (updateValueStyles s)) r) = webkitFlex (getNode s r)"
  by (auto simp add: updateValueStyles_def style_defs Let_def split: option.splits)

lemmas example_defs = slider_def sliderIE_def noSlider_def control_def page_def blankNode_def
  getNode_def


subsection \<open>Evaluating the arithmetic\<close>

lemma floor_rat_numeral_div [simp]:
  "\<lfloor>numeral a / numeral b :: rat\<rfloor> = numeral a div numeral b"
  using floor_divide_of_int_eq [of "numeral a" "numeral b", where ?'a = rat] by simp

lemma floor_rat_one_div [simp]: "\<lfloor>1 / numeral b :: rat\<rfloor> = 1 div numeral b"
  using floor_divide_of_int_eq [of 1 "numeral b", where ?'a = rat] by simp

lemma ceiling_rat_numeral_div [simp]:
  "\<lceil>numeral a / numeral b :: rat\<rceil> = - (- numeral a div numeral b)"
  using floor_divide_of_int_eq [of "- numeral a" "numeral b", where ?'a = rat]
  by (simp add: ceiling_def)

lemma ceiling_rat_one_div [simp]: "\<lceil>1 / numeral b :: rat\<rceil> = - (- 1 div numeral b)"
  using floor_divide_of_int_eq [of "- 1" "numeral b", where ?'a = rat]
  by (simp add: ceiling_def)

lemmas rnd_eval = rnd_def ulpExp_def pack_def roundAt_def roundHalfEven_def ilog2_def pow2_def
  bitLength.simps

lemmas js_eval = fractionOf_def jsSub_def jsDiv_def strictEq_def isZero_def signedZero_def
  signedInf_def

lemma rnd_small [simp]:
  "rnd 5 = Fin 5" "rnd 7 = Fin 7" "rnd 10 = Fin 10" "rnd (1 / 2) = Fin (1 / 2)"
  "rnd (7 / 10) = Fin (6305039478318694 / 2 ^ 53)"
  "rnd (1 - 6305039478318694 / 2 ^ 53) = Fin (2702159776422298 / 2 ^ 53)"
  by (simp_all add: rnd_eval)

lemma fractionOf_5_0_10 [simp]: "fractionOf (control (Fin 5) (Fin 0) (Fin 10)) = Fin (1 / 2)"
  by (simp add: js_eval control_def blankNode_def)

lemma fractionOf_7_0_10 [simp]:
  "fractionOf (control (Fin 7) (Fin 0) (Fin 10)) = Fin (6305039478318694 / 2 ^ 53)"
  by (simp add: js_eval control_def blankNode_def)

lemma slider_simps [simp]:
  "widget (slider v lo hi) = \<lparr>element = Some 1, isIE = False, backgroundLower = Some 4, backgroundUpper = Some 5\<rparr>"
  "getNode (slider v lo hi) (Suc 0) = control v lo hi"
  "flex (getNode (slider v lo hi) r) = None"
  "webkitFlex (getNode (slider v lo hi) r) = None"
  by (simp_all add: example_defs)

lemma control_simps [simp]:
  "value_attr (control v lo hi) = v" "min_attr (control v lo hi) = lo"
  "max_attr (control v lo hi) = hi" "classList (control v lo hi) = [IS_UPGRADED]"
  "disabled (control v lo hi) = False"
  by (simp_all add: control_def blankNode_def)

lemma class_names_distinct [simp]: "IS_UPGRADED \<noteq> IS_LOWEST_VALUE" "IS_LOWEST_VALUE \<noteq> IS_UPGRADED"
  by (simp_all add: IS_UPGRADED_def IS_LOWEST_VALUE_def)

subsection \<open>The constructor on the example page\<close>

text \<open>The operations on the document, on a state that is written out.\<close>

lemma createElement_lit:
  "createElement t \<lparr>widget = w, dom = \<lparr>nodes = f, fresh = n, activeElement = a\<rparr>\<rparr> =
     (n, \<lparr>widget = w, dom = \<lparr>nodes = f(n := blankNode t), fresh = Suc n, activeElement = a\<rparr>\<rparr>)"
  by (simp add: createElement_def)

lemma updNode_lit:
  "updNode r g \<lparr>widget = w, dom = \<lparr>nodes = f, fresh = n, activeElement = a\<rparr>\<rparr> =
     \<lparr>widget = w, dom = \<lparr>nodes = f(r := g (f r)), fresh = n, activeElement = a\<rparr>\<rparr>"
  by (simp add: updNode_def)

lemma getNode_lit:
  "getNode \<lparr>widget = w, dom = \<lparr>nodes = f, fresh = n, activeElement = a\<rparr>\<rparr> r = f r"
  by (simp add: getNode_def)

lemmas dom_ops = classList_add_def classList_remove_def insertBefore_def
  removeChild_def appendChild_def detach_def addEventListener_def
  andThen_def reparent_def createElement_lit updNode_lit getNode_lit


text \<open>
  On the example page the constructor returns, in either layout, and what it builds is
  the example widget after \<open>updateValueStyles_\<close>: the control has moved under the new
  container, carries the three listeners and is marked as upgraded.
\<close>

lemma newMaterialSlider_flex_example:
  "newMaterialSlider (Some 1) False (page (Fin 5) (Fin 0) (Fin 10)) =
     updateValueStyles (slider (Fin 5) (Fin 0) (Fin 10))"
  by (simp add: newMaterialSlider_def init_def initFlex_def dom_ops page_def blankNode_def
      updateValueStyles_def setLowestValue_def setFlex_def js_eval slider_def control_def
      fun_eq_iff Let_def)

lemma newMaterialSlider_IE_example:
  "newMaterialSlider (Some 1) True (page (Fin 5) (Fin 0) (Fin 10)) =
     updateValueStyles (sliderIE (Fin 5) (Fin 0) (Fin 10))"
  by (simp add: newMaterialSlider_def init_def initIE_def dom_ops page_def blankNode_def
      updateValueStyles_def setLowestValue_def setFlex_def js_eval sliderIE_def control_def
      fun_eq_iff Let_def)

subsection \<open>The fill regions\<close>

text \<open>
  C1. In the layout with the two fill regions, \<open>updateValueStyles_\<close> returns, and it
  leaves \<open>flex\<close> and \<open>webkitFlex\<close> of the lower region at the fraction
  \<open>(value - min) / (max - min)\<close> of the control and those of the upper region at
  \<open>1 - fraction\<close>. This holds for every state of the control, so in particular for
  every valid one with \<open>min < max\<close>.
\<close>

theorem updateValueStyles_fill_regions:
  assumes "element (widget s) = Some e" and "\<not> isIE (widget s)"
    and "backgroundLower (widget s) = Some lo" and "backgroundUpper (widget s) = Some up"
    and "lo \<noteq> up"
    and "fraction = jsDiv (jsSub (value_attr (getNode s e)) (min_attr (getNode s e)))
                          (jsSub (max_attr (getNode s e)) (min_attr (getNode s e)))"
  shows "\<exists>s'. updateValueStyles s = Inr s' \<and>
           flex (getNode s' lo) = Some fraction \<and> webkitFlex (getNode s' lo) = Some fraction \<and>
           flex (getNode s' up) = Some (jsSub (Fin 1) fraction) \<and>
           webkitFlex (getNode s' up) = Some (jsSub (Fin 1) fraction)"
  using assms by (simp add: updateValueStyles_flex fractionOf_def style_defs)

theorem updateValueStyles_fill_regions_witness:
  "\<exists>s'. updateValueStyles (slider (Fin 5) (Fin 0) (Fin 10)) = Inr s' \<and>
     flex (getNode s' 4) = Some (Fin (1 / 2)) \<and> webkitFlex (getNode s' 4) = Some (Fin (1 / 2)) \<and>
     flex (getNode s' 5) = Some (Fin (1 / 2)) \<and> webkitFlex (getNode s' 5) = Some (Fin (1 / 2))"
  using updateValueStyles_fill_regions [of "slider (Fin 5) (Fin 0) (Fin 10)" 1 4 5 "Fin (1 / 2)"]
    fractionOf_5_0_10
  by (simp add: fractionOf_def jsSub_def)

subsection \<open>The method change\<close>

text \<open>
  C2. The claim that \<open>change(v)\<close> assigns every supplied \<open>v\<close> fails for a supplied
  zero: on a control with value 5, min 0 and max 10, \<open>change(0)\<close> leaves the value at 5
  and the lower region at one half, and the marker of the lowest value stays absent.
\<close>

theorem change_zero_keeps_value:
  "\<exists>s'. change (Some (Fin 0)) (slider (Fin 5) (Fin 0) (Fin 10)) = Inr s' \<and>
     value_attr (getNode s' 1) = Fin 5 \<and> flex (getNode s' 4) = Some (Fin (1 / 2)) \<and>
     IS_LOWEST_VALUE \<notin> set (classList (getNode s' 1))"
  by (simp add: change_def isZero_def updateValueStyles_flex style_defs strictEq_def)

text \<open>A truthy argument is assigned; \<open>change(7)\<close> with min 0 and max 10 gives the
  fraction that the literal \<open>0.7\<close> denotes, and \<open>1 - 0.7\<close> for the upper region.\<close>

lemma change_truthy:
  assumes "truthy v" and "element (widget s) = Some e"
  shows "value_attr (getNode (finalState (change v s)) e) = toNumber v"
  using assms updateValueStyles_keeps_attrs [of "updNode e (\<lambda>n. n\<lparr>value_attr := toNumber v\<rparr>) s" e]
  by (simp add: change_def)

lemma change_7_0_10:
  "\<exists>s'. change (Some (Fin 7)) (slider (Fin 3) (Fin 0) (Fin 10)) = Inr s' \<and>
     value_attr (getNode s' 1) = Fin 7 \<and>
     flex (getNode s' 4) = Some (Fin (6305039478318694 / 2 ^ 53)) \<and>
     flex (getNode s' 5) = Some (Fin (2702159776422298 / 2 ^ 53))"
  using fractionOf_7_0_10
  by (simp add: change_def isZero_def updateValueStyles_flex style_defs fractionOf_def jsSub_def
      rnd_eval)

text \<open>
  What \<open>change()\<close> without an argument leaves on the control and on the two fill
  regions.
\<close>

lemma change_omitted_marker:
  assumes "element (widget s) = Some e"
  shows "IS_LOWEST_VALUE \<in> set (classList (getNode (finalState (change None s)) e)) \<longleftrightarrow>
         strictEq (fractionOf (getNode s e)) (Fin 0)"
  using assms
  by (auto simp add: change_def updateValueStyles_def style_defs Let_def split: option.splits)

lemma change_omitted_flex:
  assumes "element (widget s) = Some e" and "\<not> isIE (widget s)"
    and "backgroundLower (widget s) = Some lo" and "backgroundUpper (widget s) = Some up"
    and "lo \<noteq> up"
  shows "\<exists>s'. change None s = Inr s' \<and>
           flex (getNode s' lo) = Some (fractionOf (getNode s e)) \<and>
           webkitFlex (getNode s' lo) = Some (fractionOf (getNode s e)) \<and>
           flex (getNode s' up) = Some (jsSub (Fin 1) (fractionOf (getNode s e))) \<and>
           webkitFlex (getNode s' up) = Some (jsSub (Fin 1) (fractionOf (getNode s e)))"
  using assms by (simp add: change_def updateValueStyles_flex style_defs)

lemma change_omitted_IE:
  assumes "element (widget s) = Some e" and "isIE (widget s)"
  shows "\<exists>s'. change None s = Inr s'"
  using assms by (simp add: change_def updateValueStyles_IE)

text \<open>
  C4. \<open>change()\<close> without an argument is \<open>updateValueStyles_\<close> on the current state,
  and \<open>value\<close>, \<open>min\<close> and \<open>max\<close> of every node are as before, whether it returns or
  throws. It still recomputes and applies the fraction: with the control present, the
  marker of the lowest value is on the control afterwards exactly when
  \<open>(value - min) / (max - min)\<close>, taken from the current state, is \<open>=== 0\<close>; in the
  alternate layout it returns; in the layout with the two fill regions it returns and
  leaves \<open>flex\<close> and \<open>webkitFlex\<close> of the lower region at that fraction and those of the
  upper region at \<open>1 - fraction\<close>.
\<close>

theorem change_without_argument:
  "change None s = updateValueStyles s \<and>
   (\<forall>r. value_attr (getNode (finalState (change None s)) r) = value_attr (getNode s r) \<and>
        min_attr (getNode (finalState (change None s)) r) = min_attr (getNode s r) \<and>
        max_attr (getNode (finalState (change None s)) r) = max_attr (getNode s r)) \<and>
   (element (widget s) = Some e \<longrightarrow>
      (IS_LOWEST_VALUE \<in> set (classList (getNode (finalState (change None s)) e)) \<longleftrightarrow>
       strictEq (jsDiv (jsSub (value_attr (getNode s e)) (min_attr (getNode s e)))
                       (jsSub (max_attr (getNode s e)) (min_attr (getNode s e)))) (Fin 0))) \<and>
   (element (widget s) = Some e \<and> isIE (widget s) \<longrightarrow> (\<exists>s'. change None s = Inr s')) \<and>
   (element (widget s) = Some e \<and> \<not> isIE (widget s) \<and>
    backgroundLower (widget s) = Some lo \<and> backgroundUpper (widget s) = Some up \<and> lo \<noteq> up \<longrightarrow>
      (\<exists>s'. change None s = Inr s' \<and>
         flex (getNode s' lo) =
           Some (jsDiv (jsSub (value_attr (getNode s e)) (min_attr (getNode s e)))
                       (jsSub (max_attr (getNode s e)) (min_attr (getNode s e)))) \<and>
         webkitFlex (getNode s' lo) =
           Some (jsDiv (jsSub (value_attr (getNode s e)) (min_attr (getNode s e)))
                       (jsSub (max_attr (getNode s e)) (min_attr (getNode s e)))) \<and>
         flex (getNode s' up) =
           Some (jsSub (Fin 1)
                  (jsDiv (jsSub (value_attr (getNode s e)) (min_attr (getNode s e)))
                         (jsSub (max_attr (getNode s e)) (min_attr (getNode s e))))) \<and>
         webkitFlex (getNode s' up) =
           Some (jsSub (Fin 1)
                  (jsDiv (jsSub (value_attr (getNode s e)) (min_attr (getNode s e)))
                         (jsSub (max_attr (getNode s e)) (min_attr (getNode s e)))))))"
proof -
  have same: "change None s = updateValueStyles s"
    by (simp add: change_def)
  have frame: "\<forall>r. value_attr (getNode (finalState (change None s)) r) = value_attr (getNode s r) \<and>
        min_attr (getNode (finalState (change None s)) r) = min_attr (getNode s r) \<and>
        max_attr (getNode (finalState (change None s)) r) = max_attr (getNode s r)"
    using updateValueStyles_keeps_attrs [of s] by (simp add: same)
  show ?thesis
    using same frame change_omitted_marker [of s e] change_omitted_IE [of s e]
      change_omitted_flex [of s e lo up]
    unfolding fractionOf_def by blast
qed

theorem change_without_argument_witness:
  "(\<exists>s'. change None (slider (Fin 5) (Fin 0) (Fin 10)) = Inr s' \<and>
      flex (getNode s' 4) = Some (Fin (1 / 2)) \<and> webkitFlex (getNode s' 4) = Some (Fin (1 / 2)) \<and>
      flex (getNode s' 5) = Some (Fin (1 / 2)) \<and> webkitFlex (getNode s' 5) = Some (Fin (1 / 2))) \<and>
   value_attr (getNode (finalState (change None (slider (Fin 5) (Fin 0) (Fin 10)))) 1) = Fin 5 \<and>
   IS_LOWEST_VALUE \<notin> set (classList (getNode (finalState
     (change None (slider (Fin 5) (Fin 0) (Fin 10)))) 1)) \<and>
   IS_LOWEST_VALUE \<in> set (classList (getNode (finalState
     (change None (slider (Fin 0) (Fin 0) (Fin 10)))) 1)) \<and>
   (\<exists>s'. change None (sliderIE (Fin 5) (Fin 0) (Fin 10)) = Inr s')"
proof -
  note mid = change_without_argument [of "slider (Fin 5) (Fin 0) (Fin 10)" 1 4 5]
  note low = change_without_argument [of "slider (Fin 0) (Fin 0) (Fin 10)" 1 4 5]
  note alt = change_without_argument [of "sliderIE (Fin 5) (Fin 0) (Fin 10)" 1 4 5]
  have half: "jsDiv (jsSub (Fin 5) (Fin 0)) (jsSub (Fin 10) (Fin 0)) = Fin (1 / 2)"
    using fractionOf_5_0_10 by (simp add: fractionOf_def)
  have zero: "jsDiv (jsSub (Fin 0) (Fin 0)) (jsSub (Fin 10) (Fin 0)) = Fin 0"
    by (simp add: jsSub_def jsDiv_def signedZero_def)
  have one_minus: "jsSub (Fin 1) (Fin (1 / 2)) = Fin (1 / 2)"
    by (simp add: jsSub_def)
  have regions: "\<exists>s'. change None (slider (Fin 5) (Fin 0) (Fin 10)) = Inr s' \<and>
      flex (getNode s' 4) = Some (Fin (1 / 2)) \<and> webkitFlex (getNode s' 4) = Some (Fin (1 / 2)) \<and>
      flex (getNode s' 5) = Some (Fin (1 / 2)) \<and> webkitFlex (getNode s' 5) = Some (Fin (1 / 2))"
    using mid by (simp add: half one_minus change_def)
  have kept: "value_attr (getNode (finalState (change None (slider (Fin 5) (Fin 0) (Fin 10)))) 1) = Fin 5"
    using mid by (simp add: change_def)
  have absent: "IS_LOWEST_VALUE \<notin> set (classList (getNode (finalState
     (change None (slider (Fin 5) (Fin 0) (Fin 10)))) 1))"
    using mid by (simp add: half strictEq_def isZero_def change_def)
  have present: "IS_LOWEST_VALUE \<in> set (classList (getNode (finalState
     (change None (slider (Fin 0) (Fin 0) (Fin 10)))) 1))"
    using low by (simp add: zero strictEq_def isZero_def change_def)
  have returns: "\<exists>s'. change None (sliderIE (Fin 5) (Fin 0) (Fin 10)) = Inr s'"
    using alt by (simp add: sliderIE_def change_def)
  show ?thesis
    using regions kept absent present returns by (intro conjI)
qed

subsection \<open>The event handlers\<close>

text \<open>
  C5. The handlers of the input event and of the change event both are
  \<open>updateValueStyles_\<close> on the current state, whatever the event: they have the same
  outcome and no effect of their own.
\<close>

theorem onInput_onChange_same:
  "onInput ev s = updateValueStyles s \<and> onChange ev' s = updateValueStyles s \<and>
   onInput ev s = onChange ev' s"
  by (simp add: onInput_def onChange_def)

subsection \<open>Initialisation without a control\<close>

text \<open>
  C6. With an absent control \<open>init\<close> returns and leaves the state as it is, and the
  constructor returns a widget on the unchanged document: no node is created, no
  listener registered, no class added, nothing thrown.
\<close>

theorem init_absent_control:
  "(element (widget s) = None \<longrightarrow> init s = Inr s) \<and>
   newMaterialSlider None ie d =
     Inr \<lparr>widget = \<lparr>element = None, isIE = ie, backgroundLower = None, backgroundUpper = None\<rparr>,
          dom = d\<rparr>"
  by (simp add: init_def newMaterialSlider_def)

theorem init_absent_control_witness:
  "element (widget noSlider) = None \<and> init noSlider = Inr noSlider \<and>
   newMaterialSlider None False (page (Fin 5) (Fin 0) (Fin 10)) = Inr noSlider"
  using init_absent_control [of noSlider False "page (Fin 5) (Fin 0) (Fin 10)"]
  by (simp add: noSlider_def)


subsection \<open>The methods disable and enable\<close>

text \<open>
  C7, as stated: \<open>disable\<close> and \<open>enable\<close> do not succeed in every widget state. On
  the widget constructed without a control both throw a TypeError.
\<close>

theorem disable_absent_control_throws:
  "disable noSlider = Inl (TypeError, noSlider) \<and> enable noSlider = Inl (TypeError, noSlider)"
  by (simp add: disable_def enable_def noSlider_def)

text \<open>
  C7, amended. For every widget state whose control is present, \<open>disable\<close> returns and
  leaves the control's \<open>disabled\<close> true, and \<open>enable\<close> returns and leaves it false.
\<close>

theorem disable_enable_present:
  assumes "element (widget s) = Some e"
  shows "(\<exists>s'. disable s = Inr s' \<and> disabled (getNode s' e)) \<and>
         (\<exists>s'. enable s = Inr s' \<and> \<not> disabled (getNode s' e))"
  using assms by (simp add: disable_def enable_def)

theorem disable_enable_present_witness:
  "(\<exists>s'. disable (slider (Fin 5) (Fin 0) (Fin 10)) = Inr s' \<and> disabled (getNode s' 1)) \<and>
   (\<exists>s'. enable (slider (Fin 5) (Fin 0) (Fin 10)) = Inr s' \<and> \<not> disabled (getNode s' 1))"
  using disable_enable_present [of "slider (Fin 5) (Fin 0) (Fin 10)" 1] by simp

subsection \<open>What the methods leave unchanged\<close>

text \<open>
  C8. Whether \<open>updateValueStyles_\<close> returns or throws, it leaves the widget's fields and
  \<open>value\<close>, \<open>min\<close>, \<open>max\<close>, \<open>disabled\<close> and the tree position and listeners of
  every node as they were. The class lists differ at most in the marker of the lowest
  value, and only on the control; \<open>flex\<close> and \<open>webkitFlex\<close> change at most on the two
  fill regions, and not at all in the alternate layout.
\<close>

theorem updateValueStyles_frame:
  assumes "s' = finalState (updateValueStyles s)"
  shows "widget s' = widget s \<and> fresh (dom s') = fresh (dom s) \<and>
         activeElement (dom s') = activeElement (dom s) \<and>
         (\<forall>r. value_attr (getNode s' r) = value_attr (getNode s r) \<and>
              min_attr (getNode s' r) = min_attr (getNode s r) \<and>
              max_attr (getNode s' r) = max_attr (getNode s r) \<and>
              disabled (getNode s' r) = disabled (getNode s r) \<and>
              tagName (getNode s' r) = tagName (getNode s r) \<and>
              parentElement (getNode s' r) = parentElement (getNode s r) \<and>
              childNodes (getNode s' r) = childNodes (getNode s r) \<and>
              listeners (getNode s' r) = listeners (getNode s r) \<and>
              removeAll IS_LOWEST_VALUE (classList (getNode s' r)) =
                removeAll IS_LOWEST_VALUE (classList (getNode s r)) \<and>
              (element (widget s) \<noteq> Some r \<longrightarrow>
                 classList (getNode s' r) = classList (getNode s r)) \<and>
              (isIE (widget s) \<or>
               (backgroundLower (widget s) \<noteq> Some r \<and> backgroundUpper (widget s) \<noteq> Some r) \<longrightarrow>
                 flex (getNode s' r) = flex (getNode s r) \<and>
                 webkitFlex (getNode s' r) = webkitFlex (getNode s r)))"
  unfolding assms
  using updateValueStyles_keeps_widget [of s] updateValueStyles_keeps_attrs [of s]
    updateValueStyles_keeps_tree [of s] updateValueStyles_classes [of s]
    updateValueStyles_styles [of s]
  by blast

theorem updateValueStyles_frame_witness:
  "value_attr (getNode (finalState (updateValueStyles (slider (Fin 5) (Fin 0) (Fin 10)))) 1) = Fin 5 \<and>
   disabled (getNode (finalState (updateValueStyles (slider (Fin 5) (Fin 0) (Fin 10)))) 1) = False \<and>
   classList (getNode (finalState (updateValueStyles (slider (Fin 5) (Fin 0) (Fin 10)))) 4) =
     [BACKGROUND_LOWER] \<and>
   flex (getNode (finalState (updateValueStyles (slider (Fin 5) (Fin 0) (Fin 10)))) 1) = None"
  using updateValueStyles_frame [of _ "slider (Fin 5) (Fin 0) (Fin 10)", OF refl]
  by (simp add: example_defs)

text \<open>
  C9. Whether \<open>disable\<close> or \<open>enable\<close> returns or throws, the state it leaves differs
  from the state before at most in \<open>disabled\<close> of the control: the widget's fields and
  \<open>value\<close>, \<open>min\<close>, \<open>max\<close>, the class list, the styles, the tree position and the
  listeners of every node are unchanged.
\<close>

theorem disable_enable_frame:
  assumes "s' = finalState (disable s) \<or> s' = finalState (enable s)"
  shows "widget s' = widget s \<and> fresh (dom s') = fresh (dom s) \<and>
         activeElement (dom s') = activeElement (dom s) \<and>
         (\<forall>r. value_attr (getNode s' r) = value_attr (getNode s r) \<and>
              min_attr (getNode s' r) = min_attr (getNode s r) \<and>
              max_attr (getNode s' r) = max_attr (getNode s r) \<and>
              classList (getNode s' r) = classList (getNode s r) \<and>
              flex (getNode s' r) = flex (getNode s r) \<and>
              webkitFlex (getNode s' r) = webkitFlex (getNode s r) \<and>
              tagName (getNode s' r) = tagName (getNode s r) \<and>
              parentElement (getNode s' r) = parentElement (getNode s r) \<and>
              childNodes (getNode s' r) = childNodes (getNode s r) \<and>
              listeners (getNode s' r) = listeners (getNode s r) \<and>
              (element (widget s) \<noteq> Some r \<longrightarrow>
                 disabled (getNode s' r) = disabled (getNode s r)))"
  using assms by (auto simp add: disable_def enable_def split: option.splits)

theorem disable_enable_frame_witness:
  "value_attr (getNode (finalState (disable (slider (Fin 5) (Fin 0) (Fin 10)))) 1) = Fin 5 \<and>
   classList (getNode (finalState (disable (slider (Fin 5) (Fin 0) (Fin 10)))) 1) = [IS_UPGRADED] \<and>
   flex (getNode (finalState (enable (slider (Fin 5) (Fin 0) (Fin 10)))) 4) = None \<and>
   disabled (getNode (finalState (enable (slider (Fin 5) (Fin 0) (Fin 10)))) 4) = False"
  using disable_enable_frame [of "finalState (disable (slider (Fin 5) (Fin 0) (Fin 10)))"
      "slider (Fin 5) (Fin 0) (Fin 10)"]
    disable_enable_frame [of "finalState (enable (slider (Fin 5) (Fin 0) (Fin 10)))"
      "slider (Fin 5) (Fin 0) (Fin 10)"]
  by (simp add: example_defs)


subsection \<open>The marker of the lowest value\<close>

text \<open>Differences of equal numbers and quotients by zero.\<close>

lemma jsSub_strictEq:
  "strictEq x y \<Longrightarrow> isZero (jsSub x y) \<or> jsSub x y = NaN"
  by (cases x; cases y) (auto simp add: strictEq_def isZero_def jsSub_def)

lemma jsDiv_by_zero:
  "isZero y \<or> y = NaN \<Longrightarrow> jsDiv x y = NaN \<or> isInf (jsDiv x y)"
  by (cases x; cases y) (auto simp add: isZero_def jsDiv_def signedInf_def)

lemma jsDiv_zero_by_zero:
  "isZero x \<or> x = NaN \<Longrightarrow> isZero y \<or> y = NaN \<Longrightarrow> jsDiv x y = NaN"
  by (cases x; cases y) (auto simp add: isZero_def jsDiv_def)

lemma jsDiv_nonzero_by_zero:
  "isZero y \<Longrightarrow> \<not> isZero x \<Longrightarrow> x \<noteq> NaN \<Longrightarrow> isInf (jsDiv x y)"
  by (cases x; cases y) (auto simp add: isZero_def jsDiv_def signedInf_def)

lemma not_strictEq_zero: "x = NaN \<or> isInf x \<Longrightarrow> \<not> strictEq x (Fin 0)"
  by (cases x) (auto simp add: strictEq_def isZero_def)

text \<open>The marker is on the control after \<open>updateValueStyles_\<close> exactly when the fraction
  is \<open>=== 0\<close>; the method returns when the control and, in the layout with the fill
  regions, both regions are present.\<close>

lemma setLowestValue_absent:
  "\<not> strictEq x (Fin 0) \<Longrightarrow> IS_LOWEST_VALUE \<notin> set (classList (getNode (setLowestValue e x s) e))"
  by (simp add: style_defs)

lemma setLowestValue_present:
  "strictEq x (Fin 0) \<Longrightarrow> IS_LOWEST_VALUE \<in> set (classList (getNode (setLowestValue e x s) e))"
  by (simp add: style_defs)

lemma setFlex_classList [simp]: "classList (getNode (setFlex r x s) r') = classList (getNode s r')"
  by (simp add: setFlex_def)

lemma updateValueStyles_marker:
  assumes "element (widget s) = Some e"
  shows "IS_LOWEST_VALUE \<in> set (classList (getNode (finalState (updateValueStyles s)) e))
         \<longleftrightarrow> strictEq (fractionOf (getNode s e)) (Fin 0)"
  using assms setLowestValue_absent [of "fractionOf (getNode s e)" e s]
    setLowestValue_present [of "fractionOf (getNode s e)" e s]
  by (auto simp add: updateValueStyles_def Let_def split: option.splits)

lemma updateValueStyles_returns:
  assumes "element (widget s) = Some e"
    and "isIE (widget s) \<or> (backgroundLower (widget s) \<noteq> None \<and> backgroundUpper (widget s) \<noteq> None)"
  shows "\<exists>s'. updateValueStyles s = Inr s'"
  using assms by (cases "isIE (widget s)") (auto simp add: updateValueStyles_IE updateValueStyles_flex)

text \<open>
  C10, as stated: with \<open>min == max\<close> the division does not always give NaN. For value
  5 and min = max = 0 the fraction is \<open>5 / 0\<close>, the positive infinity.
\<close>

theorem fraction_min_eq_max_infinite:
  "strictEq (min_attr (getNode (slider (Fin 5) (Fin 0) (Fin 0)) 1))
            (max_attr (getNode (slider (Fin 5) (Fin 0) (Fin 0)) 1)) \<and>
   fractionOf (getNode (slider (Fin 5) (Fin 0) (Fin 0)) 1) = PosInf \<and>
   fractionOf (getNode (slider (Fin 5) (Fin 0) (Fin 0)) 1) \<noteq> NaN"
  by (simp add: js_eval)

text \<open>
  C10, amended. With \<open>min == max\<close> the routine returns; the divisor is a zero (or NaN,
  for infinite bounds), so the fraction is NaN or an infinity and never \<open>=== 0\<close>, and
  the marker is absent afterwards. The fraction is NaN when \<open>value == min\<close>; it is an
  infinity when \<open>min\<close> is finite and \<open>value - min\<close> is a non-zero number.
\<close>

theorem updateValueStyles_min_eq_max:
  assumes "element (widget s) = Some e"
    and "isIE (widget s) \<or> (backgroundLower (widget s) \<noteq> None \<and> backgroundUpper (widget s) \<noteq> None)"
    and "strictEq (min_attr (getNode s e)) (max_attr (getNode s e))"
  shows "\<exists>s'. updateValueStyles s = Inr s' \<and>
           (fractionOf (getNode s e) = NaN \<or> isInf (fractionOf (getNode s e))) \<and>
           \<not> strictEq (fractionOf (getNode s e)) (Fin 0) \<and>
           IS_LOWEST_VALUE \<notin> set (classList (getNode s' e)) \<and>
           (strictEq (value_attr (getNode s e)) (min_attr (getNode s e)) \<longrightarrow>
              fractionOf (getNode s e) = NaN) \<and>
           (isFinite (min_attr (getNode s e)) \<and>
            \<not> isZero (jsSub (value_attr (getNode s e)) (min_attr (getNode s e))) \<and>
            jsSub (value_attr (getNode s e)) (min_attr (getNode s e)) \<noteq> NaN \<longrightarrow>
              isInf (fractionOf (getNode s e)))"
proof -
  let ?n = "getNode s e"
  let ?d = "jsSub (max_attr ?n) (min_attr ?n)"
  let ?u = "jsSub (value_attr ?n) (min_attr ?n)"
  have eq: "strictEq (max_attr ?n) (min_attr ?n)"
    using assms(3) by (auto simp add: strictEq_def)
  have d: "isZero ?d \<or> ?d = NaN"
    using eq by (rule jsSub_strictEq)
  have frac: "fractionOf ?n = NaN \<or> isInf (fractionOf ?n)"
    unfolding fractionOf_def using d by (rule jsDiv_by_zero)
  hence nz: "\<not> strictEq (fractionOf ?n) (Fin 0)"
    by (rule not_strictEq_zero)
  obtain s' where s': "updateValueStyles s = Inr s'"
    using updateValueStyles_returns [OF assms(1,2)] by blast
  have marker: "IS_LOWEST_VALUE \<notin> set (classList (getNode s' e))"
    using updateValueStyles_marker [OF assms(1)] nz s' by simp
  have at_min: "fractionOf ?n = NaN" if "strictEq (value_attr ?n) (min_attr ?n)"
    unfolding fractionOf_def using jsSub_strictEq [OF that] d by (rule jsDiv_zero_by_zero)
  have off_min: "isInf (fractionOf ?n)"
    if "isFinite (min_attr ?n)" "\<not> isZero ?u" "?u \<noteq> NaN"
  proof -
    have "isZero ?d"
      using that(1) eq by (cases "min_attr ?n"; cases "max_attr ?n")
        (auto simp add: strictEq_def isZero_def jsSub_def)
    thus ?thesis
      unfolding fractionOf_def using that(2,3) by (rule jsDiv_nonzero_by_zero)
  qed
  show ?thesis
    using s' frac nz marker at_min off_min by blast
qed

theorem updateValueStyles_min_eq_max_witness:
  "(\<exists>s'. updateValueStyles (slider (Fin 7) (Fin 7) (Fin 7)) = Inr s' \<and>
      fractionOf (getNode (slider (Fin 7) (Fin 7) (Fin 7)) 1) = NaN \<and>
      IS_LOWEST_VALUE \<notin> set (classList (getNode s' 1))) \<and>
   isInf (fractionOf (getNode (slider (Fin 5) (Fin 0) (Fin 0)) 1))"
  using updateValueStyles_min_eq_max [of "slider (Fin 7) (Fin 7) (Fin 7)" 1]
    updateValueStyles_min_eq_max [of "slider (Fin 5) (Fin 0) (Fin 0)" 1]
  by (auto simp add: strictEq_def isZero_def jsSub_def)


subsection \<open>Rounding\<close>

lemma pow2_powi: "pow2 e = 2 powi e"
  by (simp add: pow2_def power_int_def inverse_eq_divide power_divide)

lemma pow2_pos [simp]: "0 < pow2 e"
  by (simp add: pow2_powi)

lemma pow2_nonneg [simp]: "0 \<le> pow2 e"
  using pow2_pos [of e] by (simp only: less_imp_le)

lemma pow2_mono: "a \<le> b \<Longrightarrow> pow2 a \<le> pow2 b"
  by (simp add: pow2_powi power_int_increasing)

lemma pow2_add: "pow2 (a + b) = pow2 a * pow2 b"
  by (simp add: pow2_powi power_int_add)

lemma pow2_nat: "0 \<le> e \<Longrightarrow> pow2 e = of_int (2 ^ nat e)"
  by (simp add: pow2_def)

lemma bitLength_nonneg: "0 \<le> bitLength n"
  by (induction n rule: bitLength.induct) (simp add: bitLength.simps)

lemma bitLength_upper: "n < 2 ^ nat (bitLength n)"
proof (induction n rule: bitLength.induct)
  case (1 n)
  show ?case
  proof (cases "n \<le> 0")
    case True
    thus ?thesis by (simp add: bitLength.simps)
  next
    case False
    hence ih: "n div 2 < 2 ^ nat (bitLength (n div 2))"
      using 1 by simp
    have "nat (1 + bitLength (n div 2)) = Suc (nat (bitLength (n div 2)))"
      using bitLength_nonneg [of "n div 2"] by simp
    hence "(2::int) ^ nat (bitLength n) = 2 * 2 ^ nat (bitLength (n div 2))"
      using False by (simp add: bitLength.simps [of n])
    moreover have "n < 2 * (n div 2 + 1)"
      by simp
    ultimately show ?thesis
      using ih by simp
  qed
qed

lemma bitLength_lower: "0 < n \<Longrightarrow> 2 ^ nat (bitLength n - 1) \<le> n"
proof (induction n rule: bitLength.induct)
  case (1 n)
  have bl: "bitLength n - 1 = bitLength (n div 2)"
    using "1.prems" by (simp add: bitLength.simps [of n])
  show ?case
  proof (cases "n div 2 = 0")
    case True
    hence "bitLength (n div 2) = 0"
      by (simp add: bitLength.simps)
    thus ?thesis
      using bl "1.prems" by simp
  next
    case False
    hence pos: "0 < n div 2"
      using "1.prems" by (simp add: pos_imp_zdiv_pos_iff)
    hence ih: "2 ^ nat (bitLength (n div 2) - 1) \<le> n div 2"
      using 1 by simp
    have "1 \<le> bitLength (n div 2)"
      using pos bitLength_nonneg [of "n div 2 div 2"] by (simp add: bitLength.simps [of "n div 2"])
    hence "nat (bitLength (n div 2)) = Suc (nat (bitLength (n div 2) - 1))"
      by simp
    hence "(2::int) ^ nat (bitLength (n div 2)) = 2 * 2 ^ nat (bitLength (n div 2) - 1)"
      by simp
    also have "\<dots> \<le> 2 * (n div 2)"
      using ih by simp
    also have "\<dots> \<le> n"
      by simp
    finally show ?thesis
      using bl by simp
  qed
qed

text \<open>\<open>ilog2\<close> does not overshoot: \<open>2 ^ ilog2 q \<le> q\<close>.\<close>

lemma ilog2_lower:
  assumes "0 < q"
  shows "pow2 (ilog2 q) \<le> q"
proof (cases "1 \<le> q")
  case True
  hence fl: "0 < \<lfloor>q\<rfloor>"
    by simp
  have k: "0 \<le> bitLength \<lfloor>q\<rfloor> - 1"
    using fl bitLength_nonneg [of "\<lfloor>q\<rfloor> div 2"] by (simp add: bitLength.simps [of "\<lfloor>q\<rfloor>"])
  have "pow2 (ilog2 q) = of_int (2 ^ nat (bitLength \<lfloor>q\<rfloor> - 1))"
    using True k by (simp add: ilog2_def pow2_nat)
  also have "\<dots> \<le> of_int \<lfloor>q\<rfloor>"
    using bitLength_lower [OF fl] by (simp only: of_int_le_iff)
  also have "\<dots> \<le> q"
    by simp
  finally show ?thesis .
next
  case False
  let ?j = "bitLength (\<lceil>1 / q\<rceil> - 1)"
  have j: "0 \<le> ?j"
    by (rule bitLength_nonneg)
  have "\<lceil>1 / q\<rceil> - 1 < 2 ^ nat ?j"
    by (rule bitLength_upper)
  hence "\<lceil>1 / q\<rceil> \<le> 2 ^ nat ?j"
    by simp
  hence "(of_int \<lceil>1 / q\<rceil> :: rat) \<le> of_int (2 ^ nat ?j)"
    by (simp only: of_int_le_iff)
  moreover have "1 / q \<le> of_int \<lceil>1 / q\<rceil>"
    by (rule le_of_int_ceiling)
  moreover have "(of_int (2 ^ nat ?j) :: rat) = 2 ^ nat ?j"
    by simp
  ultimately have "1 / q \<le> 2 ^ nat ?j"
    by (simp only: order_trans)
  hence "1 / 2 ^ nat ?j \<le> q"
    using assms by (simp add: field_simps)
  moreover have "pow2 (ilog2 q) = 1 / 2 ^ nat ?j"
    using False j by (auto simp add: ilog2_def pow2_def)
  ultimately show ?thesis
    by simp
qed

lemma roundHalfEven_ge_floor: "\<lfloor>t\<rfloor> \<le> roundHalfEven t"
  by (simp add: roundHalfEven_def)

lemma roundHalfEven_pos: "1 / 2 < t \<Longrightarrow> 1 \<le> roundHalfEven t"
proof -
  assume t: "1 / 2 < t"
  hence nonneg: "0 \<le> \<lfloor>t\<rfloor>"
    by simp
  show ?thesis
  proof (cases "\<lfloor>t\<rfloor> = 0")
    case True
    hence "1 / 2 < t - of_int \<lfloor>t\<rfloor>"
      using t by simp
    thus ?thesis
      using True by (simp add: roundHalfEven_def)
  next
    case False
    hence "1 \<le> \<lfloor>t\<rfloor>"
      using nonneg by linarith
    thus ?thesis
      using roundHalfEven_ge_floor [of t] by linarith
  qed
qed

lemma roundHalfEven_zero: "0 \<le> t \<Longrightarrow> t \<le> 1 / 2 \<Longrightarrow> roundHalfEven t = 0"
proof -
  assume t: "0 \<le> t" "t \<le> 1 / 2"
  hence "\<lfloor>t\<rfloor> = 0"
    by (simp add: floor_eq_iff)
  thus ?thesis
    using t by (simp add: roundHalfEven_def)
qed

lemma rnd_ulpExp: "rnd q = pack (q < 0) (roundAt (ulpExp q) \<bar>q\<bar>)"
  by (simp add: rnd_def)

lemma pow2_1075: "pow2 (- 1074) / 2 = 1 / 2 ^ 1075" "pow2 (- 1074) = 1 / 2 ^ 1074"
  by (simp_all add: pow2_def)

lemma roundAt_pos:
  assumes "1 / 2 ^ 1075 < q"
  shows "0 < roundAt (ulpExp q) \<bar>q\<bar>"
proof -
  have q: "0 < q"
    using assms by (meson less_trans zero_less_divide_1_iff zero_less_numeral zero_less_power)
  have "pow2 (ulpExp q) / 2 < q"
  proof (cases "- 1074 \<le> ilog2 q - 52")
    case True
    hence "pow2 (ulpExp q) \<le> pow2 (ilog2 q)"
      using q by (simp add: ulpExp_def pow2_mono)
    also have "\<dots> \<le> q"
      using q by (rule ilog2_lower)
    finally show ?thesis
      using q by simp
  next
    case False
    hence "ulpExp q = - 1074"
      using q by (simp add: ulpExp_def)
    thus ?thesis
      using assms by (simp add: pow2_1075)
  qed
  hence "1 / 2 < \<bar>q\<bar> / pow2 (ulpExp q)"
    using q by (simp add: field_simps)
  hence "1 \<le> roundHalfEven (\<bar>q\<bar> / pow2 (ulpExp q))"
    by (rule roundHalfEven_pos)
  thus ?thesis
    by (simp add: roundAt_def)
qed

lemma roundAt_zero:
  assumes "0 < q" and "q \<le> 1 / 2 ^ 1075"
  shows "roundAt (ulpExp q) \<bar>q\<bar> = 0"
proof -
  have "\<not> - 1074 < ilog2 q - 52"
  proof
    assume "- 1074 < ilog2 q - 52"
    hence "pow2 (- 1021) \<le> pow2 (ilog2 q)"
      by (simp add: pow2_mono)
    also have "\<dots> \<le> q"
      using assms(1) by (rule ilog2_lower)
    finally have "pow2 (- 1021) \<le> 1 / 2 ^ 1075"
      using assms(2) by simp
    moreover have "(1::rat) / 2 ^ 1075 < 1 / 2 ^ 1021"
      by (simp add: field_simps)
    ultimately show False
      by (simp add: pow2_def)
  qed
  hence e: "ulpExp q = - 1074"
    using assms(1) by (simp add: ulpExp_def)
  have "\<bar>q\<bar> / pow2 (- 1074) \<le> 1 / 2"
    using assms by (simp add: pow2_def field_simps)
  moreover have "0 \<le> \<bar>q\<bar> / pow2 (- 1074)"
    by simp
  ultimately have "roundHalfEven (\<bar>q\<bar> / pow2 (- 1074)) = 0"
    by (simp add: roundHalfEven_zero)
  thus ?thesis
    using e by (simp add: roundAt_def)
qed

text \<open>
  A positive exact result rounds to the positive zero exactly when it is at most
  \<open>2 ^ - 1075\<close>, half of the least positive number; otherwise to a positive number
  or to the positive infinity.
\<close>

lemma rnd_pos_cases:
  assumes "1 / 2 ^ 1075 < q"
  shows "rnd q = PosInf \<or> (\<exists>a. rnd q = Fin a \<and> 0 < a)"
proof -
  have "0 < q"
    using assms by (meson less_trans zero_less_divide_1_iff zero_less_numeral zero_less_power)
  thus ?thesis
    using roundAt_pos [OF assms] by (auto simp add: rnd_ulpExp pack_def)
qed

lemma rnd_underflow:
  assumes "0 < q" and "q \<le> 1 / 2 ^ 1075"
  shows "rnd q = Fin 0"
  using assms roundAt_zero [OF assms] by (simp add: rnd_ulpExp pack_def pow2_def)

text \<open>Every binary64 value is an integer multiple of \<open>2 ^ - 1074\<close>.\<close>

lemma isDouble_grid:
  assumes "isDouble x"
  shows "\<exists>k::int. exact x = of_int k * pow2 (- 1074)"
proof (cases x)
  case (Fin q)
  hence r: "rnd q = Fin q"
    using assms by (simp add: isDouble_def)
  let ?e = "ulpExp q"
  let ?m = "roundHalfEven (\<bar>q\<bar> / pow2 ?e)"
  have e: "0 \<le> ?e + 1074"
    by (simp add: ulpExp_def)
  have "pow2 (?e + 1074 + - 1074) = pow2 (?e + 1074) * pow2 (- 1074)"
    by (rule pow2_add)
  moreover have "?e + 1074 + - 1074 = ?e"
    by simp
  moreover have "pow2 (?e + 1074) = of_int (2 ^ nat (?e + 1074))"
    using e by (rule pow2_nat)
  ultimately have p: "pow2 ?e = of_int (2 ^ nat (?e + 1074)) * pow2 (- 1074)"
    by simp
  have "roundAt ?e \<bar>q\<bar> = of_int ?m * pow2 ?e"
    by (simp add: roundAt_def)
  also have "\<dots> = of_int ?m * (of_int (2 ^ nat (?e + 1074)) * pow2 (- 1074))"
    by (simp only: p [symmetric])
  also have "\<dots> = of_int (?m * 2 ^ nat (?e + 1074)) * pow2 (- 1074)"
    by simp
  finally have ra: "roundAt ?e \<bar>q\<bar> = of_int (?m * 2 ^ nat (?e + 1074)) * pow2 (- 1074)" .
  have "q = roundAt ?e \<bar>q\<bar> \<or> q = - roundAt ?e \<bar>q\<bar> \<or> q = 0"
    using r by (auto simp add: rnd_ulpExp pack_def split: if_splits)
  hence "q = of_int (?m * 2 ^ nat (?e + 1074)) * pow2 (- 1074) \<or>
         q = of_int (- (?m * 2 ^ nat (?e + 1074))) * pow2 (- 1074) \<or>
         q = of_int 0 * pow2 (- 1074)"
    by (simp only: ra of_int_minus mult_minus_left of_int_0 mult_zero_left)
  hence "\<exists>k::int. q = of_int k * pow2 (- 1074)"
    by blast
  thus ?thesis
    using Fin by simp
next
  case NegZero
  thus ?thesis by (auto intro: exI [of _ 0])
next
  case PosInf
  thus ?thesis by (auto intro: exI [of _ 0])
next
  case NegInf
  thus ?thesis by (auto intro: exI [of _ 0])
next
  case NaN
  thus ?thesis by (auto intro: exI [of _ 0])
qed

lemma isDouble_gap_ulp:
  assumes "isDouble x" and "isDouble y" and "exact y < exact x"
  shows "pow2 (- 1074) \<le> exact x - exact y"
proof -
  obtain k where k: "exact x = of_int k * pow2 (- 1074)"
    using isDouble_grid [OF assms(1)] by blast
  obtain l where l: "exact y = of_int l * pow2 (- 1074)"
    using isDouble_grid [OF assms(2)] by blast
  have "of_int l * pow2 (- 1074) < of_int k * pow2 (- 1074)"
    using assms(3) k l by simp
  hence "(of_int l :: rat) < of_int k"
    using pow2_pos [of "- 1074"] by (simp only: mult_less_cancel_right_pos)
  hence "l < k"
    by (simp only: of_int_less_iff)
  hence "1 \<le> k - l"
    by simp
  hence "(1::rat) \<le> of_int (k - l)"
    by (simp only: of_int_le_iff [symmetric, where ?'a = rat] of_int_1)
  hence "1 * pow2 (- 1074) \<le> of_int (k - l) * pow2 (- 1074)"
    by (intro mult_right_mono) simp_all
  thus ?thesis
    using k l by (simp add: algebra_simps)
qed

lemma isDouble_gap:
  assumes "isDouble x" and "isDouble y" and "exact y < exact x"
  shows "1 / 2 ^ 1075 < exact x - exact y"
proof -
  have "(1::rat) / 2 ^ 1075 < pow2 (- 1074)"
    by (simp add: pow2_def field_simps)
  thus ?thesis
    using isDouble_gap_ulp [OF assms] by simp
qed

lemma pow2_nonzero [simp]: "pow2 e \<noteq> 0"
  using pow2_pos [of e] by linarith

lemma pow2_not_le_zero [simp]: "\<not> pow2 e \<le> 0"
  using pow2_pos [of e] by (simp only: not_le)

lemma pow2_strict_mono: "a < b \<Longrightarrow> pow2 a < pow2 b"
  by (simp add: pow2_powi power_int_strict_increasing)

lemma pow2_numeral: "pow2 (numeral n) = 2 ^ numeral n" "pow2 1 = 2"
  by (simp_all add: pow2_def)

lemma ulpExp_abs [simp]: "ulpExp (- q) = ulpExp q" "ulpExp \<bar>q\<bar> = ulpExp q"
  by (simp_all add: ulpExp_def)

text \<open>\<open>ilog2\<close> does not undershoot either, so it is the binary exponent.\<close>

lemma ilog2_upper:
  assumes "0 < q"
  shows "q < pow2 (ilog2 q + 1)"
proof (cases "1 \<le> q")
  case True
  hence fl: "0 < \<lfloor>q\<rfloor>"
    by simp
  have k: "0 \<le> bitLength \<lfloor>q\<rfloor>"
    by (rule bitLength_nonneg)
  have "\<lfloor>q\<rfloor> + 1 \<le> 2 ^ nat (bitLength \<lfloor>q\<rfloor>)"
    using bitLength_upper [of "\<lfloor>q\<rfloor>"] by simp
  hence "(of_int (\<lfloor>q\<rfloor> + 1) :: rat) \<le> of_int (2 ^ nat (bitLength \<lfloor>q\<rfloor>))"
    by (simp only: of_int_le_iff)
  moreover have "q < of_int (\<lfloor>q\<rfloor> + 1)"
    using floor_correct [of q] by (simp only:)
  moreover have "pow2 (ilog2 q + 1) = of_int (2 ^ nat (bitLength \<lfloor>q\<rfloor>))"
    using True k by (simp add: ilog2_def pow2_nat)
  ultimately show ?thesis
    by simp
next
  case False
  let ?n = "\<lceil>1 / q\<rceil> - 1"
  let ?j = "bitLength ?n"
  have "1 < 1 / q"
    using False assms by simp
  hence n: "0 < ?n"
    by simp
  have j: "1 \<le> ?j"
    using n bitLength_nonneg [of "?n div 2"] by (simp add: bitLength.simps [of ?n])
  have "(of_int (2 ^ nat (?j - 1)) :: rat) \<le> of_int ?n"
    using bitLength_lower [OF n] by (simp only: of_int_le_iff)
  moreover have "of_int ?n < 1 / q"
    using ceiling_correct [of "1 / q"] by simp
  ultimately have "2 ^ nat (?j - 1) < 1 / q"
    by simp
  hence "q < 1 / 2 ^ nat (?j - 1)"
    using assms by (simp add: field_simps)
  moreover have "pow2 (ilog2 q + 1) = 1 / 2 ^ nat (?j - 1)"
    using False j by (auto simp add: ilog2_def pow2_def)
  ultimately show ?thesis
    by simp
qed

lemma pow2_less_imp: "pow2 a < pow2 b \<Longrightarrow> a < b"
  using pow2_mono [of b a] by (cases "a < b") simp_all

lemma ilog2_le:
  assumes "0 < q" and "q < pow2 (k + 1)"
  shows "ilog2 q \<le> k"
proof -
  have "pow2 (ilog2 q) \<le> q"
    using assms(1) by (rule ilog2_lower)
  hence "pow2 (ilog2 q) < pow2 (k + 1)"
    using assms(2) by simp
  hence "ilog2 q < k + 1"
    by (rule pow2_less_imp)
  thus ?thesis
    by simp
qed

lemma ilog2_unique:
  assumes "pow2 k \<le> q" and "q < pow2 (k + 1)"
  shows "ilog2 q = k"
proof -
  have q: "0 < q"
    by (rule less_le_trans [OF pow2_pos assms(1)])
  have "pow2 k < pow2 (ilog2 q + 1)"
    using assms(1) ilog2_upper [OF q] by simp
  hence "k < ilog2 q + 1"
    by (rule pow2_less_imp)
  thus ?thesis
    using ilog2_le [OF q assms(2)] by simp
qed

lemma roundHalfEven_of_int [simp]: "roundHalfEven (of_int n) = n"
  by (simp add: roundHalfEven_def)

lemma roundHalfEven_le: "t < of_int n \<Longrightarrow> roundHalfEven t \<le> n"
proof -
  assume "t < of_int n"
  hence "\<lfloor>t\<rfloor> < n"
    by (simp add: floor_less_iff)
  moreover have "roundHalfEven t \<le> \<lfloor>t\<rfloor> + 1"
    by (simp add: roundHalfEven_def)
  ultimately show ?thesis
    by linarith
qed

lemma roundHalfEven_nonneg: "0 \<le> t \<Longrightarrow> 0 \<le> roundHalfEven t"
  using roundHalfEven_ge_floor [of t] by (simp add: order_trans [of 0 "\<lfloor>t\<rfloor>"])

text \<open>A multiple of \<open>2 ^ (e + k)\<close> is left as it is by rounding to multiples of \<open>2 ^ e\<close>.\<close>

lemma roundAt_exact:
  assumes "0 \<le> k"
  shows "roundAt e (of_int n * pow2 (e + k)) = of_int n * pow2 (e + k)"
proof -
  have "of_int n * pow2 (e + k) / pow2 e = of_int n * pow2 k"
    using pow2_pos [of e] by (simp add: pow2_add)
  also have "\<dots> = of_int (n * 2 ^ nat k)"
    using assms by (simp add: pow2_nat)
  finally have "roundHalfEven (of_int n * pow2 (e + k) / pow2 e) = n * 2 ^ nat k"
    by (simp only: roundHalfEven_of_int)
  hence "roundAt e (of_int n * pow2 (e + k)) = of_int (n * 2 ^ nat k) * pow2 e"
    by (simp add: roundAt_def)
  also have "\<dots> = of_int n * (pow2 k * pow2 e)"
    using assms by (simp add: pow2_nat)
  also have "\<dots> = of_int n * pow2 (e + k)"
    by (simp add: pow2_add)
  finally show ?thesis .
qed

lemma ulpExp_le:
  assumes "0 < v" and "v < pow2 (e + 53)" and "- 1074 \<le> e"
  shows "ulpExp v \<le> e"
proof -
  have "ilog2 v \<le> e + 52"
    using assms(1,2) ilog2_le [of v "e + 52"] by (simp add: add.commute add.left_commute)
  thus ?thesis
    using assms(1,3) by (simp add: ulpExp_def)
qed

text \<open>The significand of a rounded number has at most 53 bits.\<close>

lemma significand_bound:
  assumes "0 < q"
  shows "roundHalfEven (q / pow2 (ulpExp q)) \<le> 2 ^ 53"
proof -
  have "q < pow2 (ilog2 q + 1)"
    using assms by (rule ilog2_upper)
  also have "pow2 (ilog2 q + 1) \<le> pow2 (ulpExp q + 53)"
    using assms by (intro pow2_mono) (simp add: ulpExp_def)
  also have "\<dots> = pow2 53 * pow2 (ulpExp q)"
    by (simp add: pow2_add mult.commute)
  finally have "q / pow2 (ulpExp q) < pow2 53"
    using pow2_pos [of "ulpExp q"] by (simp add: field_simps)
  hence "q / pow2 (ulpExp q) < of_int (2 ^ 53)"
    by (simp add: pow2_numeral)
  thus ?thesis
    by (rule roundHalfEven_le)
qed

text \<open>Rounding a magnitude gives a magnitude that rounding leaves as it is.\<close>

lemma roundAt_idem:
  assumes "0 < q" and "v = roundAt (ulpExp q) q" and "0 < v"
  shows "roundAt (ulpExp v) v = v"
proof -
  let ?e = "ulpExp q"
  let ?m = "roundHalfEven (q / pow2 ?e)"
  have v: "v = of_int ?m * pow2 ?e"
    using assms(2) by (simp add: roundAt_def)
  have e: "- 1074 \<le> ?e"
    by (simp add: ulpExp_def)
  have m: "?m \<le> 2 ^ 53"
    using assms(1) by (rule significand_bound)
  show ?thesis
  proof (cases "?m = 2 ^ 53")
    case True
    have p1: "pow2 (?e + 1) = pow2 ?e * 2"
      by (simp only: pow2_add pow2_numeral)
    have v': "v = of_int (2 ^ 52) * pow2 (?e + 1)"
      using v True by (simp add: p1)
    have "v = pow2 53 * pow2 ?e"
      using v True by (simp add: pow2_numeral)
    also have "\<dots> = pow2 (?e + 53)"
      by (simp add: pow2_add mult.commute)
    also have "\<dots> < pow2 (?e + 1 + 53)"
      by (intro pow2_strict_mono) simp
    finally have "ulpExp v \<le> ?e + 1"
      using assms(3) e by (intro ulpExp_le) simp_all
    hence k: "0 \<le> ?e + 1 - ulpExp v"
      by simp
    have "ulpExp v + (?e + 1 - ulpExp v) = ?e + 1"
      by simp
    thus ?thesis
      using roundAt_exact [OF k, of "ulpExp v" "2 ^ 52"] v' by (simp only:)
  next
    case False
    hence "?m + 1 \<le> 2 ^ 53"
      using m by simp
    hence "(of_int (?m + 1) :: rat) \<le> of_int (2 ^ 53)"
      by (simp only: of_int_le_iff)
    hence "(of_int ?m :: rat) < pow2 53"
      by (simp add: pow2_numeral)
    hence "of_int ?m * pow2 ?e < pow2 53 * pow2 ?e"
      by (simp add: mult_less_cancel_right_pos)
    hence "v < pow2 (?e + 53)"
      using v by (simp add: pow2_add mult.commute)
    hence "ulpExp v \<le> ?e"
      using assms(3) e by (intro ulpExp_le)
    hence k: "0 \<le> ?e - ulpExp v"
      by simp
    have "ulpExp v + (?e - ulpExp v) = ?e"
      by simp
    thus ?thesis
      using roundAt_exact [OF k, of "ulpExp v" ?m] v by (simp only:)
  qed
qed

lemma rnd_zero [simp]: "rnd 0 = Fin 0"
  by (simp add: rnd_eval)

text \<open>
  Rounding yields binary64 values, and so do the operators \<open>-\<close> and \<open>/\<close>, whatever
  their operands.
\<close>

lemma rnd_isDouble: "isDouble (rnd q)"
proof (cases "q = 0")
  case True
  thus ?thesis
    by (simp add: isDouble_def)
next
  case False
  let ?v = "roundAt (ulpExp q) \<bar>q\<bar>"
  have nonneg: "0 \<le> ?v"
    using roundHalfEven_nonneg [of "\<bar>q\<bar> / pow2 (ulpExp q)"] by (simp add: roundAt_def)
  show ?thesis
  proof (cases "pow2 1024 \<le> ?v")
    case True
    hence "rnd q = NegInf \<or> rnd q = PosInf"
      by (simp add: rnd_def pack_def)
    thus ?thesis
      by (auto simp add: isDouble_def)
  next
    case small: False
    show ?thesis
    proof (cases "?v = 0")
      case True
      hence "rnd q = NegZero \<or> rnd q = Fin 0"
        using small by (simp add: rnd_def pack_def)
      thus ?thesis
        by (auto simp add: isDouble_def)
    next
      case False
      hence pos: "0 < ?v"
        using nonneg by simp
      have idem: "roundAt (ulpExp ?v) ?v = ?v"
        using \<open>q \<noteq> 0\<close> pos roundAt_idem [of "\<bar>q\<bar>" ?v] by simp
      define w where "w = (if q < 0 then - ?v else ?v)"
      have rq: "rnd q = Fin w"
        using pos small by (simp add: rnd_def pack_def w_def)
      have "rnd (- ?v) = Fin (- ?v)"
        using pos small idem by (simp add: rnd_def pack_def)
      moreover have "rnd ?v = Fin ?v"
        using pos small idem by (simp add: rnd_def pack_def)
      ultimately have "rnd w = Fin w"
        by (simp only: w_def split: if_split) simp
      thus ?thesis
        by (simp only: rq isDouble_def jsnum.case)
    qed
  qed
qed

lemma isDouble_jsSub: "isDouble (jsSub x y)"
  using rnd_isDouble [of "exact x - exact y"]
  by (cases x; cases y) (auto simp add: jsSub_def isDouble_def)

lemma isDouble_jsDiv: "isDouble (jsDiv x y)"
  using rnd_isDouble [of "exact x / exact y"]
  by (cases x; cases y) (auto simp add: jsDiv_def isDouble_def signedInf_def signedZero_def)

lemma isDouble_fractionOf: "isDouble (fractionOf n)"
  by (simp add: fractionOf_def isDouble_jsDiv)

text \<open>Away from underflow, rounding changes a positive number by less than a factor of two.\<close>

lemma ulp_le:
  assumes "pow2 (- 1074) \<le> q"
  shows "pow2 (ulpExp q) \<le> q"
proof (cases "- 1074 \<le> ilog2 q - 52")
  case True
  have q: "0 < q"
    by (rule less_le_trans [OF pow2_pos assms])
  have "pow2 (ulpExp q) \<le> pow2 (ilog2 q)"
    using True q by (simp add: ulpExp_def pow2_mono)
  also have "\<dots> \<le> q"
    using q by (rule ilog2_lower)
  finally show ?thesis .
next
  case False
  have q: "0 < q"
    by (rule less_le_trans [OF pow2_pos assms])
  have "ulpExp q = - 1074"
    using False q by (simp add: ulpExp_def)
  thus ?thesis
    using assms by simp
qed

lemma roundHalfEven_bounds:
  assumes "1 \<le> t"
  shows "t \<le> 2 * of_int (roundHalfEven t)" and "of_int (roundHalfEven t) \<le> 2 * t"
proof -
  have fl: "1 \<le> \<lfloor>t\<rfloor>"
    using assms by simp
  have "t < of_int \<lfloor>t\<rfloor> + 1"
    using floor_correct [of t] by simp
  also have "\<dots> \<le> of_int \<lfloor>t\<rfloor> + of_int \<lfloor>t\<rfloor>"
    using fl by (simp only: add_left_mono of_int_1 [symmetric, where ?'a = rat] of_int_le_iff)
  also have "\<dots> \<le> 2 * of_int (roundHalfEven t)"
    using roundHalfEven_ge_floor [of t] by (simp add: of_int_le_iff [symmetric, where ?'a = rat] del: of_int_le_iff)
  finally show "t \<le> 2 * of_int (roundHalfEven t)"
    by simp
  have "roundHalfEven t \<le> \<lfloor>t\<rfloor> + 1"
    by (simp add: roundHalfEven_def)
  hence "(of_int (roundHalfEven t) :: rat) \<le> of_int (\<lfloor>t\<rfloor> + 1)"
    by (simp only: of_int_le_iff)
  also have "\<dots> \<le> t + 1"
    using floor_correct [of t] by simp
  also have "\<dots> \<le> 2 * t"
    using assms by simp
  finally show "of_int (roundHalfEven t) \<le> 2 * t" .
qed

lemma roundAt_bounds:
  assumes "pow2 (- 1074) \<le> q"
  shows "q \<le> 2 * roundAt (ulpExp q) q" and "roundAt (ulpExp q) q \<le> 2 * q"
proof -
  let ?p = "pow2 (ulpExp q)"
  have t: "1 \<le> q / ?p"
    using ulp_le [OF assms] by (simp add: field_simps)
  have "q / ?p * ?p \<le> 2 * of_int (roundHalfEven (q / ?p)) * ?p"
    using roundHalfEven_bounds(1) [OF t] by (intro mult_right_mono) simp_all
  thus "q \<le> 2 * roundAt (ulpExp q) q"
    by (simp add: roundAt_def)
  have "of_int (roundHalfEven (q / ?p)) * ?p \<le> 2 * (q / ?p) * ?p"
    using roundHalfEven_bounds(2) [OF t] by (intro mult_right_mono) simp_all
  thus "roundAt (ulpExp q) q \<le> 2 * q"
    by (simp add: roundAt_def)
qed

lemma rnd_bounds:
  assumes "pow2 (- 1074) \<le> q" and "q \<le> pow2 1022"
  shows "\<exists>a. rnd q = Fin a \<and> q \<le> 2 * a \<and> a \<le> 2 * q"
proof -
  let ?v = "roundAt (ulpExp q) q"
  have q: "0 < q"
    by (rule less_le_trans [OF pow2_pos assms(1)])
  have lower: "q \<le> 2 * ?v" and upper: "?v \<le> 2 * q"
    using roundAt_bounds [OF assms(1)] by simp_all
  have "?v \<le> 2 * pow2 1022"
    using upper assms(2) by simp
  also have "\<dots> < pow2 1024"
    by (simp add: pow2_numeral)
  finally have "\<not> pow2 1024 \<le> ?v"
    by simp
  moreover have "?v \<noteq> 0"
    using lower q by auto
  ultimately have "rnd q = Fin ?v"
    using q by (simp add: rnd_def pack_def)
  thus ?thesis
    using lower upper by simp
qed

subsection \<open>The marker on finite controls\<close>

lemma isFinite_cases: "isFinite x \<Longrightarrow> x = Fin (exact x) \<or> x = NegZero"
  by (cases x) simp_all

lemma jsLess_finite: "isFinite x \<Longrightarrow> isFinite y \<Longrightarrow> jsLess x y = (exact x < exact y)"
  by (cases x; cases y) simp_all

lemma strictEq_finite: "isFinite x \<Longrightarrow> isFinite y \<Longrightarrow> strictEq x y = (exact x = exact y)"
  by (cases x; cases y) (auto simp add: strictEq_def isZero_def)

lemma strictEq_zero: "strictEq x (Fin 0) = isZero x"
  by (cases x) (auto simp add: strictEq_def isZero_def)

lemma jsSub_finite_eq:
  "isFinite x \<Longrightarrow> isFinite y \<Longrightarrow> exact x = exact y \<Longrightarrow> isZero (jsSub x y)"
  by (cases x; cases y) (auto simp add: jsSub_def isZero_def)

lemma jsSub_finite_ne:
  "isFinite x \<Longrightarrow> isFinite y \<Longrightarrow> exact x \<noteq> exact y \<Longrightarrow> jsSub x y = rnd (exact x - exact y)"
  by (cases x; cases y) (auto simp add: jsSub_def)

text \<open>The difference of two distinct binary64 values never rounds to zero.\<close>

lemma jsSub_greater:
  assumes "isFinite x" and "isFinite y" and "isDouble x" and "isDouble y" and "jsLess y x"
  shows "jsSub x y = PosInf \<or> (\<exists>a. jsSub x y = Fin a \<and> 0 < a)"
proof -
  have less: "exact y < exact x"
    using assms(1,2,5) by (simp add: jsLess_finite)
  hence "jsSub x y = rnd (exact x - exact y)"
    using assms(1,2) by (simp add: jsSub_finite_ne)
  moreover have "1 / 2 ^ 1075 < exact x - exact y"
    using assms(3,4) less by (rule isDouble_gap)
  ultimately show ?thesis
    using rnd_pos_cases [of "exact x - exact y"] by simp
qed

lemma jsDiv_zero_by_pos:
  "isZero x \<Longrightarrow> y = PosInf \<or> (\<exists>b. y = Fin b \<and> 0 < b) \<Longrightarrow> isZero (jsDiv x y)"
  by (cases x) (auto simp add: isZero_def jsDiv_def signedZero_def)

lemma jsDiv_PosInf_by_pos:
  "y = PosInf \<or> (\<exists>b. y = Fin b \<and> 0 < b) \<Longrightarrow> \<not> isZero (jsDiv PosInf y)"
  by (auto simp add: isZero_def jsDiv_def signedInf_def)

lemma jsDiv_pos_by_PosInf: "0 < a \<Longrightarrow> jsDiv (Fin a) PosInf = Fin 0"
  by (simp add: jsDiv_def signedZero_def)

lemma jsDiv_pos_by_pos: "0 < a \<Longrightarrow> 0 < b \<Longrightarrow> jsDiv (Fin a) (Fin b) = rnd (a / b)"
  by (simp add: jsDiv_def)

lemma rnd_pos_zero_iff:
  assumes "0 < q"
  shows "isZero (rnd q) \<longleftrightarrow> q \<le> 1 / 2 ^ 1075"
proof (cases "q \<le> 1 / 2 ^ 1075")
  case True
  thus ?thesis
    using rnd_underflow [OF assms] by (simp add: isZero_def)
next
  case False
  hence "rnd q = PosInf \<or> (\<exists>a. rnd q = Fin a \<and> 0 < a)"
    by (simp add: rnd_pos_cases)
  thus ?thesis
    using False by (auto simp add: isZero_def)
qed

text \<open>
  The quotient of two positive numbers is \<open>=== 0\<close> exactly when the divisor is the
  infinity or the exact quotient is at most \<open>2 ^ - 1075\<close>.
\<close>

lemma jsDiv_pos_zero_iff:
  assumes "x = PosInf \<or> (\<exists>a. x = Fin a \<and> 0 < a)"
    and "y = PosInf \<or> (\<exists>b. y = Fin b \<and> 0 < b)"
  shows "isZero (jsDiv x y) \<longleftrightarrow>
         isFinite x \<and> (y = PosInf \<or> exact x * 2 ^ 1075 \<le> exact y)"
proof (cases "x = PosInf")
  case True
  thus ?thesis
    using jsDiv_PosInf_by_pos [OF assms(2)] by simp
next
  case False
  then obtain a where a: "x = Fin a" "0 < a"
    using assms(1) by blast
  show ?thesis
  proof (cases "y = PosInf")
    case True
    thus ?thesis
      using a by (simp add: jsDiv_pos_by_PosInf isZero_def)
  next
    case False
    then obtain b where b: "y = Fin b" "0 < b"
      using assms(2) by blast
    have "isZero (rnd (a / b)) \<longleftrightarrow> a / b \<le> 1 / 2 ^ 1075"
      using a(2) b(2) by (simp add: rnd_pos_zero_iff)
    also have "\<dots> \<longleftrightarrow> a * 2 ^ 1075 \<le> b"
      using b(2) by (simp add: field_simps)
    finally show ?thesis
      using a b by (simp add: jsDiv_pos_by_pos)
  qed
qed

lemma rnd_wide:
  "rnd (2 ^ 1023) = Fin (2 ^ 1023)" "rnd (- (2 ^ 1023)) = Fin (- (2 ^ 1023))"
  "rnd (2 ^ 1024) = PosInf"
  by (simp_all add: rnd_eval)

text \<open>
  C3, as stated: with \<open>min < max\<close> and \<open>value > min\<close> the marker can be present.
  For min \<open>- 2 ^ 1023\<close>, max \<open>2 ^ 1023\<close> and value 0, all three binary64 values,
  \<open>max - min\<close> overflows to the infinity, the fraction is \<open>2 ^ 1023 / Infinity = 0\<close>
  and the marker is added.
\<close>

theorem lowest_value_marker_overflow:
  "jsLess (min_attr (getNode (slider (Fin 0) (Fin (- (2 ^ 1023))) (Fin (2 ^ 1023))) 1))
          (max_attr (getNode (slider (Fin 0) (Fin (- (2 ^ 1023))) (Fin (2 ^ 1023))) 1)) \<and>
   jsLess (min_attr (getNode (slider (Fin 0) (Fin (- (2 ^ 1023))) (Fin (2 ^ 1023))) 1))
          (value_attr (getNode (slider (Fin 0) (Fin (- (2 ^ 1023))) (Fin (2 ^ 1023))) 1)) \<and>
   isDouble (min_attr (getNode (slider (Fin 0) (Fin (- (2 ^ 1023))) (Fin (2 ^ 1023))) 1)) \<and>
   isDouble (max_attr (getNode (slider (Fin 0) (Fin (- (2 ^ 1023))) (Fin (2 ^ 1023))) 1)) \<and>
   isDouble (value_attr (getNode (slider (Fin 0) (Fin (- (2 ^ 1023))) (Fin (2 ^ 1023))) 1)) \<and>
   IS_LOWEST_VALUE \<in> set (classList (getNode (finalState (updateValueStyles
     (slider (Fin 0) (Fin (- (2 ^ 1023))) (Fin (2 ^ 1023))))) 1))"
proof -
  have sub1: "jsSub (Fin 0) (Fin (- (2 ^ 1023))) = Fin (2 ^ 1023)"
    using rnd_wide(1) by (simp add: jsSub_def)
  have sub2: "jsSub (Fin (2 ^ 1023)) (Fin (- (2 ^ 1023))) = PosInf"
    using rnd_wide(3) by (simp add: jsSub_def)
  have "fractionOf (control (Fin 0) (Fin (- (2 ^ 1023))) (Fin (2 ^ 1023))) = Fin 0"
    unfolding fractionOf_def control_simps sub1 sub2
    by (simp add: jsDiv_def signedZero_def)
  hence "IS_LOWEST_VALUE \<in> set (classList (getNode (finalState (updateValueStyles
     (slider (Fin 0) (Fin (- (2 ^ 1023))) (Fin (2 ^ 1023))))) (Suc 0)))"
    by (simp add: updateValueStyles_marker [of _ "Suc 0"] strictEq_def isZero_def)
  moreover have "isDouble (Fin (- (2 ^ 1023)))"
    unfolding isDouble_def jsnum.case by (rule rnd_wide(2))
  moreover have "isDouble (Fin (2 ^ 1023))"
    unfolding isDouble_def jsnum.case by (rule rnd_wide(1))
  moreover have "isDouble (Fin 0)"
    by (simp add: isDouble_def rnd_eval)
  ultimately show ?thesis
    by simp
qed

text \<open>
  C3, amended. For a control whose \<open>value\<close>, \<open>min\<close> and \<open>max\<close> are finite binary64
  values with \<open>min < max\<close>, after \<open>updateValueStyles_\<close> (returning or throwing): if
  \<open>value == min\<close> the marker is present; if \<open>value > min\<close> the marker is present
  exactly when \<open>value - min\<close> is finite and either \<open>max - min\<close> has overflowed to the
  infinity or the quotient of the two differences is at most \<open>2 ^ - 1075\<close> and
  underflows to zero. In every other case with \<open>value > min\<close> it is absent.
\<close>

theorem lowest_value_marker:
  assumes "element (widget s) = Some e"
    and "value_attr (getNode s e) = v" and "min_attr (getNode s e) = lo"
    and "max_attr (getNode s e) = hi"
    and "isFinite v" and "isFinite lo" and "isFinite hi"
    and "isDouble v" and "isDouble lo" and "isDouble hi"
    and "jsLess lo hi"
    and "s' = finalState (updateValueStyles s)"
  shows "(strictEq v lo \<longrightarrow> IS_LOWEST_VALUE \<in> set (classList (getNode s' e))) \<and>
         (jsLess lo v \<longrightarrow>
            (IS_LOWEST_VALUE \<in> set (classList (getNode s' e)) \<longleftrightarrow>
             isFinite (jsSub v lo) \<and>
             (jsSub hi lo = PosInf \<or> exact (jsSub v lo) * 2 ^ 1075 \<le> exact (jsSub hi lo))))"
proof -
  have marker: "IS_LOWEST_VALUE \<in> set (classList (getNode s' e)) \<longleftrightarrow>
                isZero (jsDiv (jsSub v lo) (jsSub hi lo))"
    using updateValueStyles_marker [OF assms(1)] assms(2,3,4,12)
    by (simp add: fractionOf_def strictEq_zero)
  have range: "jsSub hi lo = PosInf \<or> (\<exists>b. jsSub hi lo = Fin b \<and> 0 < b)"
    using assms(7,6,10,9,11) by (rule jsSub_greater)
  have at_min: "isZero (jsDiv (jsSub v lo) (jsSub hi lo))" if "strictEq v lo"
  proof -
    have "exact v = exact lo"
      using that assms(5,6) by (simp add: strictEq_finite)
    hence "isZero (jsSub v lo)"
      using assms(5,6) by (simp add: jsSub_finite_eq)
    thus ?thesis
      using range by (rule jsDiv_zero_by_pos)
  qed
  have above: "isZero (jsDiv (jsSub v lo) (jsSub hi lo)) \<longleftrightarrow>
               isFinite (jsSub v lo) \<and>
               (jsSub hi lo = PosInf \<or> exact (jsSub v lo) * 2 ^ 1075 \<le> exact (jsSub hi lo))"
    if "jsLess lo v"
  proof -
    have "jsSub v lo = PosInf \<or> (\<exists>a. jsSub v lo = Fin a \<and> 0 < a)"
      using assms(5,6,8,9) that by (rule jsSub_greater)
    thus ?thesis
      using range by (rule jsDiv_pos_zero_iff)
  qed
  show ?thesis
    using marker at_min above by blast
qed

theorem lowest_value_marker_witness:
  "IS_LOWEST_VALUE \<in> set (classList (getNode (finalState (updateValueStyles
     (slider (Fin 0) (Fin 0) (Fin 10)))) 1)) \<and>
   IS_LOWEST_VALUE \<notin> set (classList (getNode (finalState (updateValueStyles
     (slider (Fin 5) (Fin 0) (Fin 10)))) 1))"
  using lowest_value_marker [of "slider (Fin 0) (Fin 0) (Fin 10)" 1 "Fin 0" "Fin 0" "Fin 10", OF _ _ _ _ _ _ _ _ _ _ _ refl]
    lowest_value_marker [of "slider (Fin 5) (Fin 0) (Fin 10)" 1 "Fin 5" "Fin 0" "Fin 10", OF _ _ _ _ _ _ _ _ _ _ _ refl]
  by (simp add: isDouble_def strictEq_def isZero_def jsSub_def rnd_eval)

text \<open>
  The difference of two binary64 values of magnitude at most \<open>2 ^ 1021\<close>, the first
  the greater, is a positive number within a factor of two of the exact difference.
\<close>

lemma jsSub_bounds:
  assumes "isFinite x" and "isFinite y" and "isDouble x" and "isDouble y"
    and "exact y < exact x" and "\<bar>exact x\<bar> \<le> pow2 1021" and "\<bar>exact y\<bar> \<le> pow2 1021"
  shows "\<exists>a. jsSub x y = Fin a \<and> exact x - exact y \<le> 2 * a \<and> a \<le> 2 * (exact x - exact y)"
proof -
  have "jsSub x y = rnd (exact x - exact y)"
    using assms(1,2,5) by (simp add: jsSub_finite_ne)
  moreover have "pow2 (- 1074) \<le> exact x - exact y"
    using assms(3,4,5) by (rule isDouble_gap_ulp)
  moreover have "exact x - exact y \<le> pow2 1021 + pow2 1021"
    using assms(6,7) by linarith
  hence "exact x - exact y \<le> pow2 1022"
    by (simp add: pow2_numeral)
  ultimately show ?thesis
    using rnd_bounds [of "exact x - exact y"] by simp
qed

text \<open>
  For controls away from the limits of the number format the marker is absent whenever
  \<open>value > min\<close>: it is enough that \<open>value\<close>, \<open>min\<close> and \<open>max\<close> have magnitude at
  most \<open>2 ^ 1021\<close> and that \<open>max - min\<close> is at most \<open>2 ^ 1000\<close> times \<open>value - min\<close>.
\<close>

lemma lowest_value_marker_ordinary:
  assumes "element (widget s) = Some e"
    and "value_attr (getNode s e) = v" and "min_attr (getNode s e) = lo"
    and "max_attr (getNode s e) = hi"
    and "isFinite v" and "isFinite lo" and "isFinite hi"
    and "isDouble v" and "isDouble lo" and "isDouble hi"
    and "jsLess lo hi" and "jsLess lo v"
    and "\<bar>exact v\<bar> \<le> 2 ^ 1021" and "\<bar>exact lo\<bar> \<le> 2 ^ 1021" and "\<bar>exact hi\<bar> \<le> 2 ^ 1021"
    and "exact hi - exact lo \<le> 2 ^ 1000 * (exact v - exact lo)"
  shows "IS_LOWEST_VALUE \<notin> set (classList (getNode (finalState (updateValueStyles s)) e))"
proof -
  have lv: "exact lo < exact v" and lh: "exact lo < exact hi"
    using assms(5,6,7,11,12) by (simp_all add: jsLess_finite)
  obtain a where a: "jsSub v lo = Fin a" "exact v - exact lo \<le> 2 * a"
    using jsSub_bounds [OF assms(5,6,8,9) lv] assms(13,14) by (auto simp add: pow2_numeral)
  obtain b where b: "jsSub hi lo = Fin b" "b \<le> 2 * (exact hi - exact lo)"
    "exact hi - exact lo \<le> 2 * b"
    using jsSub_bounds [OF assms(7,6,10,9) lh] assms(15,14) by (auto simp add: pow2_numeral)
  have apos: "0 < a"
    using a(2) lv by linarith
  have bpos: "0 < b"
    using b(3) lh by linarith
  have "2 * (exact hi - exact lo) \<le> 2 * (2 ^ 1000 * (exact v - exact lo))"
    using assms(16) by (intro mult_left_mono) simp_all
  hence "b \<le> 2 * (2 ^ 1000 * (exact v - exact lo))"
    using b(2) by (rule order_trans [rotated])
  also have "\<dots> \<le> 2 * (2 ^ 1000 * (2 * a))"
    using a(2) by simp
  finally have "b \<le> 2 ^ 1002 * a"
    by simp
  also have "\<dots> < 2 ^ 1075 * a"
    using apos by simp
  finally have "1 / 2 ^ 1075 < a / b"
    using bpos by (simp add: field_simps)
  hence "\<not> isZero (rnd (a / b))"
    using rnd_pos_cases [of "a / b"] by (auto simp add: isZero_def)
  hence "\<not> strictEq (fractionOf (getNode s e)) (Fin 0)"
    using a(1) b(1) apos bpos assms(2,3,4)
    by (simp add: fractionOf_def jsDiv_pos_by_pos strictEq_zero)
  thus ?thesis
    using updateValueStyles_marker [OF assms(1)] by simp
qed

lemma lowest_value_marker_ordinary_example:
  "IS_LOWEST_VALUE \<notin> set (classList (getNode (finalState (updateValueStyles
     (slider (Fin 7) (Fin 0) (Fin 10)))) 1))"
  using lowest_value_marker_ordinary [of "slider (Fin 7) (Fin 0) (Fin 10)" 1 "Fin 7" "Fin 0" "Fin 10"]
  by (simp add: isDouble_def)

end
